theory Spec2Isabelle
  imports Main "HOL-Library.Option_ord"
begin

section \<open>The product controller of pos-BE\<close>

text \<open>
  The controller (\<^verbatim>\<open>productController\<close>) runs on an Express request and a Sequelize store.
  The request is a record of what the handlers read; the store is a record of the tables the
  handlers touch; a store call takes the store and returns it updated. A JavaScript
  \<^verbatim>\<open>throw\<close> is the value \<open>Inl e\<close>, returned together with the state as it is at the
  throw.

  Inside \<^verbatim>\<open>sequelize.transaction\<close> the state is a pair of stores: the store as the
  transaction sees it, and the committed store, which is what a rollback leaves. A call
  that passes \<^verbatim>\<open>transaction: t\<close> works on the first, a call that does not works on the
  second, so that a write issued without the handle survives a rollback.

  Identities are natural numbers, as the store hands them out and as a JSON body carries them.
  Requests are handled one at a time: the isolation level of the edit has no counterpart here.
  Vouchers, which the controller only reads, and the time stamps of variants are left out.
\<close>

subsection \<open>Values of the request\<close>

type_synonym bytes = "nat list"

datatype error =
    ResponseError string nat
  | TypeError
  | SharpError
  | DatabaseError

datatype direction = ASC | DESC

record variant_input =
  vi_id :: "nat option"
  vi_name :: "string option"
  vi_price :: "int option"
  vi_stock :: "int option"

text \<open>
  \<^verbatim>\<open>req.body\<close>: a field is \<open>None\<close> when the key is absent. The keys that Sequelize's
  Product model knows are kept apart; \<open>b_other\<close> holds the names of all remaining keys.
\<close>

record body =
  b_id :: "nat option"
  b_name :: "string option"
  b_description :: "string option"
  b_image :: "bytes option"
  b_isActive :: "bool option"
  b_createdAt :: "nat option"
  b_updatedAt :: "nat option"
  b_categoryId :: "nat list option"
  b_variants :: "variant_input list option"
  b_other :: "string list"

record request =
  req_params_id :: nat
  req_file :: "bytes option"
  req_body :: body

text \<open>
  \<^verbatim>\<open>req.query\<close> of the listing. \<open>q_page\<close> and \<open>q_perPage\<close> are the numbers that unary
  \<^verbatim>\<open>+\<close> reads from the query string, \<open>None\<close> when the key is absent or not a number (NaN).
\<close>

record query =
  q_name :: "string option"
  q_categoryId :: "nat option"
  q_sortBy :: "string option"
  q_orderBy :: "direction option"
  q_isPaginated :: "string option"
  q_page :: "int option"
  q_perPage :: "int option"

text \<open>
  The options object of a Sequelize call. Sequelize reads the keys \<^verbatim>\<open>fields\<close> and
  \<^verbatim>\<open>transaction\<close>; the key \<^verbatim>\<open>field\<close>, which the controller passes to
  \<^verbatim>\<open>Product.create\<close> and \<^verbatim>\<open>Product.update\<close>, is no option of Sequelize and is
  never read. \<open>opt_transaction\<close> says whether the handle \<^verbatim>\<open>t\<close> is passed.
\<close>

record options =
  opt_fields :: "string list option"
  opt_field :: "string list option"
  opt_transaction :: bool

text \<open>The options \<^verbatim>\<open>{transaction: t}\<close>; the other keys are added by record update.\<close>

definition in_t :: options where
  "in_t = \<lparr>opt_fields = None, opt_field = None, opt_transaction = True\<rparr>"

subsection \<open>The store\<close>

record product =
  p_id :: nat
  p_name :: "string option"
  p_description :: "string option"
  p_image :: "bytes option"
  p_isActive :: "bool option"
  p_createdAt :: nat
  p_updatedAt :: nat

record category =
  c_id :: nat
  c_name :: string

record variant =
  v_id :: nat
  v_name :: "string option"
  v_price :: "int option"
  v_stock :: "int option"
  v_productId :: "nat option"

record store =
  products :: "product list"
  categories :: "category list"
  variants :: "variant list"
  productCategories :: "(nat \<times> nat) list"
  productSeq :: nat
  variantSeq :: nat

text \<open>
  What the handlers use and the sources do not hold: the image normaliser \<^verbatim>\<open>sharp\<close>,
  the clock, what the models and their tables accept of the values of a call, the
  \<^verbatim>\<open>LIKE\<close> of the store and the order of the values of a Product column (\<open>None\<close> for a
  name that is no column).
\<close>

record env =
  sharp :: "bytes \<Rightarrow> bytes option"
  now :: nat
  valid_product :: "body \<Rightarrow> bool"
  valid_variant :: "variant_input \<Rightarrow> bool"
  like :: "string \<Rightarrow> string \<Rightarrow> bool"
  column_key :: "string \<Rightarrow> (product \<Rightarrow> int option) option"

text \<open>
  A program over a state \<open>'s\<close> returns an error or a value, and the state. A store call is
  a program over the store; a step of a transaction callback is one over the two stores of
  the transaction.
\<close>

record session =
  tx_view :: store
  committed :: store

type_synonym ('s, 'a) prog = "'s \<Rightarrow> (error + 'a) \<times> 's"

type_synonym 'a tx = "(store, 'a) prog"

type_synonym 'a stx = "(session, 'a) prog"

text \<open>The keys of a table are distinct and below the table's auto-increment counter.\<close>

definition wf_store :: "store \<Rightarrow> bool" where
  "wf_store s =
     (distinct (map p_id (products s)) \<and> distinct (map c_id (categories s)) \<and>
      distinct (map v_id (variants s)) \<and>
      list_all (\<lambda>p. p_id p < productSeq s) (products s) \<and>
      list_all (\<lambda>v. v_id v < variantSeq s) (variants s))"

subsection \<open>The error kinds of the specification\<close>

datatype kind = InvalidInput | InvalidReference | NotFound | Internal

text \<open>
  Modelled from the spec: the class \<^verbatim>\<open>ResponseError\<close> and \<^verbatim>\<open>sendResponse\<close> are not
  among the sources. A \<^verbatim>\<open>ResponseError\<close> of status 404 is NotFound; of status 400 it is
  InvalidReference when its message names an identity that does not resolve and InvalidInput
  otherwise; every other failure is Internal.
\<close>

fun kind_of :: "error \<Rightarrow> kind" where
  "kind_of (ResponseError m st) =
     (if st = 404 then NotFound
      else if st = 400 then
        (if m = ''invalid categoryId'' then InvalidReference
         else if m = ''invalid variant id'' then InvalidReference
         else InvalidInput)
      else Internal)"
| "kind_of TypeError = Internal"
| "kind_of SharpError = Internal"
| "kind_of DatabaseError = Internal"

subsection \<open>Sequencing\<close>

definition throw :: "error \<Rightarrow> ('s, 'a) prog" where
  "throw e s = (Inl e, s)"

definition resolve :: "'a \<Rightarrow> ('s, 'a) prog" where
  "resolve x s = (Inr x, s)"

definition and_then :: "('s, 'a) prog \<Rightarrow> ('a \<Rightarrow> ('s, 'b) prog) \<Rightarrow> ('s, 'b) prog" where
  "and_then m f s = (case m s of (Inl e, s') \<Rightarrow> (Inl e, s') | (Inr x, s') \<Rightarrow> f x s')"

subsection \<open>Sequelize: the managed transaction\<close>

text \<open>
  \<^verbatim>\<open>sequelize.transaction(async (t) => ...)\<close> commits what the transaction did when the
  callback returns, and rolls back to the committed store when it throws.
\<close>

definition open_session :: "store \<Rightarrow> session" where
  "open_session s = \<lparr>tx_view = s, committed = s\<rparr>"

definition transaction :: "'a stx \<Rightarrow> 'a tx" where
  "transaction callback s =
     (case callback (open_session s) of
        (Inl e, ss) \<Rightarrow> (Inl e, committed ss)
      | (Inr r, ss) \<Rightarrow> (Inr r, tx_view ss))"

text \<open>
  A write, \<^verbatim>\<open>await Model.call(..., options)\<close>, and a read inside a callback: with the
  handle they work on the store of the transaction, without it on the committed store.
\<close>

definition query :: "(options \<Rightarrow> 'a tx) \<Rightarrow> options \<Rightarrow> 'a stx" where
  "query call opts ss =
     (if opt_transaction opts
      then (case call opts (tx_view ss) of (r, s') \<Rightarrow> (r, ss\<lparr>tx_view := s'\<rparr>))
      else (case call opts (committed ss) of (r, s') \<Rightarrow> (r, ss\<lparr>committed := s'\<rparr>)))"

definition fetch :: "(store \<Rightarrow> 'a) \<Rightarrow> options \<Rightarrow> 'a stx" where
  "fetch read opts ss =
     (Inr (read (if opt_transaction opts then tx_view ss else committed ss)), ss)"

subsection \<open>Sequelize: the Product model\<close>

text \<open>
  Modelled from the spec: the models are not among the sources. The attributes of Product are
  its identity, name, description, image, active flag and the two timestamps.
\<close>

definition Product_attributes :: "string list" where
  "Product_attributes =
     [''id'', ''name'', ''description'', ''image'', ''isActive'', ''createdAt'', ''updatedAt'']"

definition take_field :: "string list \<Rightarrow> string \<Rightarrow> 'a option \<Rightarrow> 'a option" where
  "take_field fs k v = (if k \<in> set fs then v else None)"

definition or_else :: "'a option \<Rightarrow> 'a \<Rightarrow> 'a" where
  "or_else v d = (case v of None \<Rightarrow> d | Some x \<Rightarrow> x)"

text \<open>
  \<^verbatim>\<open>Product.create(values, options)\<close>: the attributes written are \<^verbatim>\<open>options.fields\<close>,
  or every attribute of the model when that option is not set. An identity that is absent or
  0 is taken from the auto-increment counter, a creation time that is absent or 0 (falsy) from
  the clock; \<^verbatim>\<open>updatedAt\<close> is always the clock.
\<close>

definition Product_create :: "env \<Rightarrow> body \<Rightarrow> options \<Rightarrow> product tx" where
  "Product_create E vals opts s =
     (let fs = or_else (opt_fields opts) Product_attributes;
          given = or_else (take_field fs ''id'' (b_id vals)) 0;
          created = or_else (take_field fs ''createdAt'' (b_createdAt vals)) 0;
          row = \<lparr> p_id = (if given = 0 then productSeq s else given),
                  p_name = take_field fs ''name'' (b_name vals),
                  p_description = take_field fs ''description'' (b_description vals),
                  p_image = take_field fs ''image'' (b_image vals),
                  p_isActive = take_field fs ''isActive'' (b_isActive vals),
                  p_createdAt = (if created = 0 then now E else created),
                  p_updatedAt = now E \<rparr>
      in if valid_product E vals \<and> p_id row \<notin> set (map p_id (products s))
         then (Inr row, s\<lparr>products := products s @ [row],
                          productSeq := max (productSeq s) (Suc (p_id row))\<rparr>)
         else (Inl DatabaseError, s))"

text \<open>
  \<^verbatim>\<open>Product.update(values, {where: {id}, ...})\<close>: the attributes written are
  \<^verbatim>\<open>options.fields\<close>, or, when that option is not set, the keys of \<open>values\<close> that are
  attributes of the model; \<^verbatim>\<open>updatedAt\<close> is set to the clock. When the values hold no
  attribute to write but \<^verbatim>\<open>updatedAt\<close>, Sequelize sends no query and returns 0. Otherwise
  it returns the number of rows that the \<^verbatim>\<open>where\<close> matched. When the identity of a row
  is rewritten, the variants and the category links of the product follow it (the foreign keys
  of Sequelize's associations are \<^verbatim>\<open>ON UPDATE CASCADE\<close>).
\<close>

definition columns_given :: "string list \<Rightarrow> body \<Rightarrow> bool" where
  "columns_given fs vals =
     (\<not> (take_field fs ''id'' (b_id vals) = None
         \<and> take_field fs ''name'' (b_name vals) = None
         \<and> take_field fs ''description'' (b_description vals) = None
         \<and> take_field fs ''image'' (b_image vals) = None
         \<and> take_field fs ''isActive'' (b_isActive vals) = None
         \<and> take_field fs ''createdAt'' (b_createdAt vals) = None))"

definition update_product_row :: "env \<Rightarrow> string list \<Rightarrow> body \<Rightarrow> product \<Rightarrow> product" where
  "update_product_row E fs vals p =
     \<lparr> p_id = or_else (take_field fs ''id'' (b_id vals)) (p_id p),
       p_name = (case take_field fs ''name'' (b_name vals) of None \<Rightarrow> p_name p | Some x \<Rightarrow> Some x),
       p_description =
         (case take_field fs ''description'' (b_description vals) of
            None \<Rightarrow> p_description p | Some x \<Rightarrow> Some x),
       p_image = (case take_field fs ''image'' (b_image vals) of None \<Rightarrow> p_image p | Some x \<Rightarrow> Some x),
       p_isActive =
         (case take_field fs ''isActive'' (b_isActive vals) of
            None \<Rightarrow> p_isActive p | Some x \<Rightarrow> Some x),
       p_createdAt = or_else (take_field fs ''createdAt'' (b_createdAt vals)) (p_createdAt p),
       p_updatedAt = now E \<rparr>"

definition move_product_keys :: "nat \<Rightarrow> nat \<Rightarrow> store \<Rightarrow> store" where
  "move_product_keys i k s =
     s\<lparr>variants :=
         map (\<lambda>v. if v_productId v = Some i then v\<lparr>v_productId := Some k\<rparr> else v) (variants s),
       productCategories :=
         map (\<lambda>l. if fst l = i then (k, snd l) else l) (productCategories s)\<rparr>"

definition Product_update :: "env \<Rightarrow> body \<Rightarrow> nat \<Rightarrow> options \<Rightarrow> nat tx" where
  "Product_update E vals i opts s =
     (let fs = or_else (opt_fields opts) Product_attributes;
          k = or_else (take_field fs ''id'' (b_id vals)) i;
          rows = map (\<lambda>p. if p_id p = i then update_product_row E fs vals p else p) (products s);
          n = length (filter (\<lambda>p. p_id p = i) (products s))
      in if valid_product E vals then
           (if columns_given fs vals then
              (if distinct (map p_id rows)
               then (Inr n, (if n = 0 then s else move_product_keys i k s)\<lparr>products := rows\<rparr>)
               else (Inl DatabaseError, s))
            else (Inr 0, s))
         else (Inl DatabaseError, s))"

definition Product_findByPk :: "nat \<Rightarrow> store \<Rightarrow> product option" where
  "Product_findByPk i s = find (\<lambda>p. p_id p = i) (products s)"

text \<open>
  A product as \<^verbatim>\<open>findByPk\<close> loads it with \<^verbatim>\<open>include\<close>: the row without its image,
  its categories and its variants. (Vouchers are read only and left out.)
\<close>

record product_view =
  pv_product :: product
  pv_categories :: "category list"
  pv_variants :: "variant list"

definition view_of :: "store \<Rightarrow> product \<Rightarrow> product_view" where
  "view_of s p =
     \<lparr> pv_product = p\<lparr>p_image := None\<rparr>,
       pv_categories = filter (\<lambda>c. (p_id p, c_id c) \<in> set (productCategories s)) (categories s),
       pv_variants = filter (\<lambda>v. v_productId v = Some (p_id p)) (variants s) \<rparr>"

definition Product_findByPk_include :: "nat \<Rightarrow> store \<Rightarrow> product_view option" where
  "Product_findByPk_include i s = map_option (view_of s) (Product_findByPk i s)"

subsection \<open>Sequelize: categories and variants\<close>

definition Category_findByPk :: "nat \<Rightarrow> store \<Rightarrow> category option" where
  "Category_findByPk i s = find (\<lambda>c. c_id c = i) (categories s)"

text \<open>\<^verbatim>\<open>Category.findAll({where: {id: ids}})\<close>: the rows whose id is one of \<open>ids\<close>.\<close>

definition Category_findAll :: "nat list \<Rightarrow> store \<Rightarrow> category list" where
  "Category_findAll ids s = filter (\<lambda>c. c_id c \<in> set ids) (categories s)"

text \<open>
  \<^verbatim>\<open>product.setCategories(ids)\<close> makes \<open>ids\<close> the categories of the product: the links to
  other categories are removed, the links that are missing are added.
\<close>

definition setCategories :: "nat \<Rightarrow> nat list \<Rightarrow> options \<Rightarrow> unit tx" where
  "setCategories pid ids opts s =
     (Inr (), s\<lparr>productCategories :=
        filter (\<lambda>l. \<not> (fst l = pid \<and> snd l \<notin> set ids)) (productCategories s)
        @ map (Pair pid) (filter (\<lambda>c. (pid, c) \<notin> set (productCategories s)) ids)\<rparr>)"

text \<open>\<^verbatim>\<open>!!variant?.id\<close>: an identity that is absent or 0 is falsy.\<close>

definition truthy_id :: "nat option \<Rightarrow> bool" where
  "truthy_id i = (case i of None \<Rightarrow> False | Some n \<Rightarrow> n \<noteq> 0)"

text \<open>
  The columns of Variant that an input can carry besides its identity. Every variant call of
  the controller passes \<^verbatim>\<open>fields\<close>; a call without it is taken to write these three.
\<close>

definition Variant_columns :: "string list" where
  "Variant_columns = [''name'', ''price'', ''stock'']"

definition new_variant_row :: "string list \<Rightarrow> nat \<times> variant_input \<Rightarrow> variant" where
  "new_variant_row fs iv =
     \<lparr> v_id = fst iv,
       v_name = take_field fs ''name'' (vi_name (snd iv)),
       v_price = take_field fs ''price'' (vi_price (snd iv)),
       v_stock = take_field fs ''stock'' (vi_stock (snd iv)),
       v_productId = None \<rparr>"

text \<open>
  \<^verbatim>\<open>Variant.bulkCreate(records, {fields})\<close> inserts one row for each record, with the
  attributes of \<open>fields\<close> only and identities from the auto-increment counter. It returns the
  identities of its instances: an instance that came with a truthy identity keeps it, every
  other one gets the identity of its row.
\<close>

definition Variant_bulkCreate :: "env \<Rightarrow> variant_input list \<Rightarrow> options \<Rightarrow> nat list tx" where
  "Variant_bulkCreate E records opts s =
     (let fs = or_else (opt_fields opts) Variant_columns;
          numbered = enumerate (variantSeq s) records
      in if list_all (valid_variant E) records
         then (Inr (map (\<lambda>iv. if truthy_id (vi_id (snd iv)) then or_else (vi_id (snd iv)) 0 else fst iv)
                      numbered),
               s\<lparr>variants := variants s @ map (new_variant_row fs) numbered,
                 variantSeq := variantSeq s + length records\<rparr>)
         else (Inl DatabaseError, s))"

definition update_variant_row :: "string list \<Rightarrow> variant_input \<Rightarrow> variant \<Rightarrow> variant" where
  "update_variant_row fs vals v =
     v\<lparr> v_name := (case take_field fs ''name'' (vi_name vals) of None \<Rightarrow> v_name v | Some x \<Rightarrow> Some x),
        v_price := (case take_field fs ''price'' (vi_price vals) of None \<Rightarrow> v_price v | Some x \<Rightarrow> Some x),
        v_stock := (case take_field fs ''stock'' (vi_stock vals) of None \<Rightarrow> v_stock v | Some x \<Rightarrow> Some x) \<rparr>"

definition variant_columns_given :: "string list \<Rightarrow> variant_input \<Rightarrow> bool" where
  "variant_columns_given fs vals =
     (\<not> (take_field fs ''name'' (vi_name vals) = None
         \<and> take_field fs ''price'' (vi_price vals) = None
         \<and> take_field fs ''stock'' (vi_stock vals) = None))"

text \<open>
  \<^verbatim>\<open>Variant.update(values, {where: {id}, fields})\<close> writes the attributes of \<open>fields\<close> that
  \<open>values\<close> holds into every row of that identity, of whatever product, and returns the number
  of rows that the \<^verbatim>\<open>where\<close> matched. As for products, it sends no query and returns 0
  when \<open>values\<close> holds none of these attributes.
\<close>

definition Variant_update :: "env \<Rightarrow> variant_input \<Rightarrow> nat \<Rightarrow> options \<Rightarrow> nat tx" where
  "Variant_update E vals i opts s =
     (let fs = or_else (opt_fields opts) Variant_columns
      in if valid_variant E vals then
           (if variant_columns_given fs vals
            then (Inr (length (filter (\<lambda>v. v_id v = i) (variants s))),
                  s\<lparr>variants :=
                      map (\<lambda>v. if v_id v = i then update_variant_row fs vals v else v) (variants s)\<rparr>)
            else (Inr 0, s))
         else (Inl DatabaseError, s))"

definition Variant_destroy :: "variant \<Rightarrow> options \<Rightarrow> unit tx" where
  "Variant_destroy variantData opts s =
     (Inr (), s\<lparr>variants := filter (\<lambda>v. v_id v \<noteq> v_id variantData) (variants s)\<rparr>)"

definition getVariants :: "nat \<Rightarrow> store \<Rightarrow> variant list" where
  "getVariants pid s = filter (\<lambda>v. v_productId v = Some pid) (variants s)"

text \<open>
  \<^verbatim>\<open>product.setVariants(vs)\<close> makes \<open>vs\<close> the variants of the product (a variant of the
  product that is not in \<open>vs\<close> loses its owner); \<^verbatim>\<open>product.addVariants(vs)\<close> only adds.
\<close>

definition setVariants :: "nat \<Rightarrow> nat list \<Rightarrow> options \<Rightarrow> unit tx" where
  "setVariants pid ids opts s =
     (Inr (), s\<lparr>variants :=
        map (\<lambda>v. if v_id v \<in> set ids then v\<lparr>v_productId := Some pid\<rparr>
                 else if v_productId v = Some pid then v\<lparr>v_productId := None\<rparr>
                 else v) (variants s)\<rparr>)"

definition addVariants :: "nat \<Rightarrow> nat list \<Rightarrow> options \<Rightarrow> unit tx" where
  "addVariants pid ids opts s =
     (Inr (), s\<lparr>variants :=
        map (\<lambda>v. if v_id v \<in> set ids then v\<lparr>v_productId := Some pid\<rparr> else v) (variants s)\<rparr>)"

subsection \<open>createProduct\<close>

text \<open>\<^verbatim>\<open>Object.keys(req.body)\<close>: the keys that are present.\<close>

definition Object_keys :: "body \<Rightarrow> string list" where
  "Object_keys b =
     (if b_id b = None then [] else [''id'']) @
     (if b_name b = None then [] else [''name'']) @
     (if b_description b = None then [] else [''description'']) @
     (if b_image b = None then [] else [''image'']) @
     (if b_isActive b = None then [] else [''isActive'']) @
     (if b_createdAt b = None then [] else [''createdAt'']) @
     (if b_updatedAt b = None then [] else [''updatedAt'']) @
     (if b_categoryId b = None then [] else [''categoryId'']) @
     (if b_variants b = None then [] else [''variants'']) @
     b_other b"

text \<open>
  The block "set product category" of both mutations (lines 152-166 and 225-239). In
  \<^verbatim>\<open>editProductById\<close> the product is what \<^verbatim>\<open>findByPk\<close> returned, which may be null.
\<close>

definition link_categories :: "nat list option \<Rightarrow> product option \<Rightarrow> unit stx" where
  "link_categories categoryId productData =
     (case categoryId of
        None \<Rightarrow> resolve ()
      | Some ids \<Rightarrow>
          if length ids > 0 then
            and_then (fetch (Category_findAll ids) in_t) (\<lambda>categoriesData.
              if length categoriesData = length ids
              then (case productData of
                      None \<Rightarrow> throw TypeError
                    | Some p \<Rightarrow> query (setCategories (p_id p) ids) in_t)
              else throw (ResponseError ''invalid categoryId'' 400))
          else resolve ())"

definition create_variants :: "env \<Rightarrow> variant_input list option \<Rightarrow> product \<Rightarrow> unit stx" where
  "create_variants E vs productData =
     (case vs of
        None \<Rightarrow> resolve ()
      | Some records \<Rightarrow>
          if length records > 0 then
            and_then
              (query (Variant_bulkCreate E records)
                 (in_t\<lparr>opt_fields := Some [''name'', ''price'', ''stock'']\<rparr>))
              (\<lambda>variantsData. query (setVariants (p_id productData) variantsData) in_t)
          else resolve ())"

definition createProduct_callback :: "env \<Rightarrow> request \<Rightarrow> product_view option stx" where
  "createProduct_callback E req =
     (case req_file req of
        None \<Rightarrow> throw TypeError
      | Some buffer \<Rightarrow>
          (case sharp E buffer of
             None \<Rightarrow> throw SharpError
           | Some png \<Rightarrow>
               (let body = (req_body req)\<lparr>b_image := Some png\<rparr> in
                and_then
                  (query (Product_create E body)
                     (in_t\<lparr>opt_field := Some [''name'', ''description'', ''image'', ''isActive'']\<rparr>))
                  (\<lambda>productData.
                and_then (link_categories (b_categoryId body) (Some productData)) (\<lambda>_.
                and_then (create_variants E (b_variants body) productData) (\<lambda>_.
                fetch (Product_findByPk_include (p_id productData)) in_t))))))"

definition createProduct :: "env \<Rightarrow> request \<Rightarrow> product_view option tx" where
  "createProduct E req = transaction (createProduct_callback E req)"

subsection \<open>editProductById\<close>

text \<open>
  Lines 203-204: the body with the normalised upload as its image, when a file was uploaded.
\<close>

definition with_image :: "env \<Rightarrow> request \<Rightarrow> error + body" where
  "with_image E req =
     (case req_file req of
        None \<Rightarrow> Inr (req_body req)
      | Some buffer \<Rightarrow>
          (case sharp E buffer of
             None \<Rightarrow> Inl SharpError
           | Some png \<Rightarrow> Inr ((req_body req)\<lparr>b_image := Some png\<rparr>)))"

definition newVariants :: "variant_input list \<Rightarrow> variant_input list" where
  "newVariants vs = filter (\<lambda>variant. \<not> truthy_id (vi_id variant)) vs"

definition updateVariants :: "variant_input list \<Rightarrow> variant_input list" where
  "updateVariants vs = filter (\<lambda>variant. truthy_id (vi_id variant)) vs"

definition updateVariantsId :: "variant_input list \<Rightarrow> nat list" where
  "updateVariantsId vs = map (\<lambda>variant. or_else (vi_id variant) 0) (updateVariants vs)"

text \<open>The loop "delete existed variants in db but not exist in req.body" (lines 257-265).\<close>

fun delete_missing :: "nat list \<Rightarrow> variant list \<Rightarrow> unit stx" where
  "delete_missing ids [] ss = resolve () ss"
| "delete_missing ids (variantData # rest) ss =
     and_then
       (if v_id variantData \<in> set ids then resolve () else query (Variant_destroy variantData) in_t)
       (\<lambda>_. delete_missing ids rest) ss"

text \<open>The loop "update existed variants" (lines 269-278).\<close>

fun update_existing :: "env \<Rightarrow> variant_input list \<Rightarrow> unit stx" where
  "update_existing E [] ss = resolve () ss"
| "update_existing E (updateVariant # rest) ss =
     and_then
       (query (Variant_update E updateVariant (or_else (vi_id updateVariant) 0))
          (in_t\<lparr>opt_fields := Some [''name'', ''price'', ''stock'']\<rparr>))
       (\<lambda>numVariantUpdated.
          if numVariantUpdated = 0 then throw (ResponseError ''invalid variant id'' 400)
          else update_existing E rest) ss"

definition reconcile_variants :: "env \<Rightarrow> variant_input list option \<Rightarrow> product option \<Rightarrow> unit stx" where
  "reconcile_variants E vs productData =
     (case vs of
        None \<Rightarrow> resolve ()
      | Some desired \<Rightarrow>
          if length desired > 0 then
            (case productData of
               None \<Rightarrow> throw TypeError
             | Some p \<Rightarrow>
                 and_then (fetch (getVariants (p_id p)) in_t) (\<lambda>variantsData.
                 and_then (delete_missing (updateVariantsId desired) variantsData) (\<lambda>_.
                 and_then (update_existing E (updateVariants desired)) (\<lambda>_.
                 and_then
                   (query (Variant_bulkCreate E (newVariants desired))
                      (in_t\<lparr>opt_fields := Some [''name'', ''price'', ''stock'']\<rparr>))
                   (\<lambda>newVariantsData. query (addVariants (p_id p) newVariantsData) in_t)))))
          else resolve ())"

definition editProductById_callback :: "env \<Rightarrow> request \<Rightarrow> product_view option stx" where
  "editProductById_callback E req =
     (case with_image E req of
        Inl e \<Rightarrow> throw e
      | Inr body \<Rightarrow>
          if length (Object_keys body) = 0 then throw (ResponseError ''no data provided'' 400)
          else
            and_then
              (query (Product_update E body (req_params_id req))
                 (in_t\<lparr>opt_field := Some [''name'', ''description'', ''image'', ''isActive'']\<rparr>))
              (\<lambda>numProductUpdated.
                 if numProductUpdated = 0 then throw (ResponseError ''product not found'' 404)
                 else
                   and_then (fetch (Product_findByPk (req_params_id req)) in_t) (\<lambda>productData.
                   and_then (link_categories (b_categoryId body) productData) (\<lambda>_.
                   and_then (reconcile_variants E (b_variants body) productData) (\<lambda>_.
                   fetch (Product_findByPk_include (req_params_id req)) in_t)))))"

definition editProductById :: "env \<Rightarrow> request \<Rightarrow> product_view option tx" where
  "editProductById E req = transaction (editProductById_callback E req)"

subsection \<open>getProducts\<close>

text \<open>
  \<^verbatim>\<open>(SELECT MAX(price) FROM Variants WHERE Variants.productId = Product.id)\<close>: the greatest
  price among the variants of the product, NULL (\<open>None\<close>) when there is none.
\<close>

definition max_price :: "store \<Rightarrow> product \<Rightarrow> int option" where
  "max_price s p =
     (case List.map_filter v_price (filter (\<lambda>v. v_productId v = Some (p_id p)) (variants s)) of
        [] \<Rightarrow> None
      | x # xs \<Rightarrow> Some (fold max xs x))"

text \<open>
  Modelled from the spec: the place of NULL in an \<^verbatim>\<open>ORDER BY\<close> is the store's, and the
  controller asks for none. As the spec has it, NULL is below every number in both
  directions: \<open>None\<close> is the least element of the order on \<open>int option\<close>, and a descending
  order is the ascending one reversed.
\<close>

definition order_by :: "(product \<Rightarrow> int option) \<Rightarrow> direction \<Rightarrow> product list \<Rightarrow> product list" where
  "order_by key dir ps = (case dir of ASC \<Rightarrow> sort_key key ps | DESC \<Rightarrow> rev (sort_key key ps))"

definition ordered :: "env \<Rightarrow> query \<Rightarrow> store \<Rightarrow> product list \<Rightarrow> error + product list" where
  "ordered E q s ps =
     (if q_sortBy q = Some ''price''
      then Inr (order_by (max_price s) (or_else (q_orderBy q) DESC) ps)
      else
        (case column_key E (case q_sortBy q of
                              None \<Rightarrow> ''updatedAt''
                            | Some c \<Rightarrow> if c = [] then ''updatedAt'' else c) of
           None \<Rightarrow> Inl DatabaseError
         | Some key \<Rightarrow> Inr (order_by key (or_else (q_orderBy q) DESC) ps)))"

definition where_name :: "env \<Rightarrow> query \<Rightarrow> product \<Rightarrow> bool" where
  "where_name E q p =
     (case q_name q of
        None \<Rightarrow> True
      | Some name \<Rightarrow>
          if name = [] then True
          else (case p_name p of None \<Rightarrow> False | Some n \<Rightarrow> like E name n))"

definition paginated :: "query \<Rightarrow> bool" where
  "paginated q = (q_isPaginated q \<noteq> Some ''false'')"

definition page :: "query \<Rightarrow> int" where
  "page q = (let n = or_else (q_page q) 0 in if n = 0 then 1 else n)"

definition perPage :: "query \<Rightarrow> int" where
  "perPage q = (let n = or_else (q_perPage q) 0 in if n = 0 then 5 else n)"

definition paginate :: "query \<Rightarrow> 'a list \<Rightarrow> error + 'a list" where
  "paginate q xs =
     (if paginated q then
        (if 0 \<le> perPage q \<and> 0 \<le> (page q - 1) * perPage q
         then Inr (take (nat (perPage q)) (drop (nat ((page q - 1) * perPage q)) xs))
         else Inl DatabaseError)
      else Inr xs)"

record listing =
  l_data :: "product_view list"
  l_total_data :: nat
  l_total_page :: "int option"
  l_current_page :: "int option"
  l_per_page :: "int option"

definition find_products :: "env \<Rightarrow> query \<Rightarrow> store \<Rightarrow> product list \<Rightarrow> error + product_view list" where
  "find_products E q s candidates =
     (case ordered E q s (filter (where_name E q) candidates) of
        Inl e \<Rightarrow> Inl e
      | Inr rows \<Rightarrow>
          (case paginate q rows of
             Inl e \<Rightarrow> Inl e
           | Inr shown \<Rightarrow> Inr (map (view_of s) shown)))"

definition respond :: "query \<Rightarrow> product_view list \<Rightarrow> nat \<Rightarrow> listing" where
  "respond q productsData totalData =
     \<lparr> l_data = productsData,
       l_total_data = totalData,
       l_total_page = (if paginated q then Some (- ((- int totalData) div perPage q)) else None),
       l_current_page = (if paginated q then Some (page q) else None),
       l_per_page = (if paginated q then Some (perPage q) else None) \<rparr>"

text \<open>The products of a category: \<^verbatim>\<open>categoryData.getProducts\<close> and \<^verbatim>\<open>countProducts\<close>.\<close>

definition products_of :: "category \<Rightarrow> store \<Rightarrow> product list" where
  "products_of categoryData s =
     filter (\<lambda>p. (p_id p, c_id categoryData) \<in> set (productCategories s)) (products s)"

definition getProducts :: "env \<Rightarrow> query \<Rightarrow> store \<Rightarrow> error + listing" where
  "getProducts E q s =
     (case q_categoryId q of
        Some categoryId \<Rightarrow>
          (case Category_findByPk categoryId s of
             None \<Rightarrow> Inl (ResponseError ''invalid categoryId'' 400)
           | Some categoryData \<Rightarrow>
               (case find_products E q s (products_of categoryData s) of
                  Inl e \<Rightarrow> Inl e
                | Inr productsData \<Rightarrow>
                    Inr (respond q productsData
                           (length (filter (where_name E q) (products_of categoryData s))))))
      | None \<Rightarrow>
          (case find_products E q s (products s) of
             Inl e \<Rightarrow> Inl e
           | Inr productsData \<Rightarrow>
               Inr (respond q productsData (length (filter (where_name E q) (products s))))))"

subsection \<open>The mutations up to their category and variant blocks\<close>


definition edit_before_categories :: "env \<Rightarrow> request \<Rightarrow> (body \<times> product option) stx" where
  "edit_before_categories E req =
     (case with_image E req of
        Inl e \<Rightarrow> throw e
      | Inr body \<Rightarrow>
          if length (Object_keys body) = 0 then throw (ResponseError ''no data provided'' 400)
          else
            and_then
              (query (Product_update E body (req_params_id req))
                 (in_t\<lparr>opt_field := Some [''name'', ''description'', ''image'', ''isActive'']\<rparr>))
              (\<lambda>numProductUpdated.
                 if numProductUpdated = 0 then throw (ResponseError ''product not found'' 404)
                 else
                   and_then (fetch (Product_findByPk (req_params_id req)) in_t) (\<lambda>productData.
                   resolve (body, productData))))"

definition edit_before_variants :: "env \<Rightarrow> request \<Rightarrow> (body \<times> product option) stx" where
  "edit_before_variants E req =
     and_then (edit_before_categories E req)
       (\<lambda>bp. and_then (link_categories (b_categoryId (fst bp)) (snd bp)) (\<lambda>_. resolve bp))"

text \<open>For the proofs: a step that leaves the committed store as it is.\<close>

definition keeps_committed :: "'a stx \<Rightarrow> bool" where
  "keeps_committed m = (\<forall>ss. committed (snd (m ss)) = committed ss)"

text \<open>
  One pass of the update loop on the table of variants: what \<^verbatim>\<open>Variant.update\<close> with
  \<^verbatim>\<open>where: {id: updateVariant.id}\<close> and the three fields writes.
\<close>

definition apply_update :: "variant_input \<Rightarrow> variant list \<Rightarrow> variant list" where
  "apply_update u vs =
     map (\<lambda>v. if v_id v = or_else (vi_id u) 0
              then update_variant_row [''name'', ''price'', ''stock''] u v else v) vs"

subsection \<open>A sample store and sample requests\<close>

definition demo_env :: env where
  "demo_env =
     \<lparr> sharp = (\<lambda>b. if b = [] then None else Some (0 # b)),
       now = 100,
       valid_product = (\<lambda>b. True),
       valid_variant = (\<lambda>v. case vi_price v of None \<Rightarrow> True | Some x \<Rightarrow> 0 \<le> x),
       like = (\<lambda>pat s. pat = take (length pat) s),
       column_key = (\<lambda>c. if c = ''id'' then Some (\<lambda>p. Some (int (p_id p)))
                          else if c = ''updatedAt'' then Some (\<lambda>p. Some (int (p_updatedAt p)))
                          else None) \<rparr>"

definition demo_store :: store where
  "demo_store =
     \<lparr> products =
         [\<lparr>p_id = 1, p_name = Some ''Tea'', p_description = None, p_image = Some [1, 2],
           p_isActive = Some True, p_createdAt = 10, p_updatedAt = 10\<rparr>,
          \<lparr>p_id = 2, p_name = Some ''Coffee'', p_description = None, p_image = None,
           p_isActive = Some True, p_createdAt = 20, p_updatedAt = 20\<rparr>,
          \<lparr>p_id = 3, p_name = Some ''Water'', p_description = None, p_image = None,
           p_isActive = Some False, p_createdAt = 30, p_updatedAt = 30\<rparr>],
       categories = [\<lparr>c_id = 1, c_name = ''Drinks''\<rparr>, \<lparr>c_id = 2, c_name = ''Hot''\<rparr>],
       variants =
         [\<lparr>v_id = 1, v_name = Some ''A'', v_price = Some 10, v_stock = Some 5, v_productId = Some 1\<rparr>,
          \<lparr>v_id = 2, v_name = Some ''B'', v_price = Some 30, v_stock = Some 5, v_productId = Some 1\<rparr>,
          \<lparr>v_id = 3, v_name = Some ''C'', v_price = None, v_stock = Some 5, v_productId = Some 1\<rparr>,
          \<lparr>v_id = 4, v_name = Some ''E'', v_price = Some 20, v_stock = Some 1, v_productId = Some 2\<rparr>],
       productCategories = [(1, 1), (2, 1), (2, 2)],
       productSeq = 4,
       variantSeq = 5 \<rparr>"

definition empty_body :: body where
  "empty_body =
     \<lparr> b_id = None, b_name = None, b_description = None, b_image = None, b_isActive = None,
       b_createdAt = None, b_updatedAt = None, b_categoryId = None, b_variants = None,
       b_other = [] \<rparr>"



definition req_empty :: request where
  "req_empty = \<lparr>req_params_id = 1, req_file = None, req_body = empty_body\<rparr>"

definition req_no_file :: request where
  "req_no_file =
     \<lparr>req_params_id = 1, req_file = None, req_body = empty_body\<lparr>b_name := Some ''Juice''\<rparr>\<rparr>"

definition req_bad_variant :: request where
  "req_bad_variant =
     \<lparr>req_params_id = 1, req_file = None,
      req_body = empty_body\<lparr>b_name := Some ''Chai'',
        b_variants := Some [\<lparr>vi_id = Some 2, vi_name = Some ''B2'', vi_price = None, vi_stock = None\<rparr>,
                            \<lparr>vi_id = Some 9, vi_name = Some ''D'', vi_price = Some 7, vi_stock = None\<rparr>]\<rparr>\<rparr>"





definition q_all :: query where
  "q_all = \<lparr>q_name = None, q_categoryId = None, q_sortBy = None, q_orderBy = None,
            q_isPaginated = None, q_page = None, q_perPage = None\<rparr>"

definition desired_BD :: "variant_input list" where
  "desired_BD =
     [\<lparr>vi_id = Some 2, vi_name = Some ''B2'', vi_price = None, vi_stock = None\<rparr>,
      \<lparr>vi_id = None, vi_name = Some ''D'', vi_price = Some 7, vi_stock = None\<rparr>]"

definition req_reconcile :: request where
  "req_reconcile =
     \<lparr>req_params_id = 1, req_file = None,
      req_body = empty_body\<lparr>b_name := Some ''Chai'', b_variants := Some desired_BD\<rparr>\<rparr>"

definition desired_zero :: "variant_input list" where
  "desired_zero = [\<lparr>vi_id = Some 0, vi_name = Some ''Z'', vi_price = None, vi_stock = None\<rparr>]"

definition req_zero_id :: request where
  "req_zero_id =
     \<lparr>req_params_id = 1, req_file = None,
      req_body = empty_body\<lparr>b_name := Some ''Chai'', b_variants := Some desired_zero\<rparr>\<rparr>"

definition req_extra_fields :: request where
  "req_extra_fields =
     \<lparr>req_params_id = 1, req_file = Some [7],
      req_body = empty_body\<lparr>b_name := Some ''Juice'', b_id := Some 42, b_createdAt := Some 7\<rparr>\<rparr>"

definition req_foreign_variant :: request where
  "req_foreign_variant =
     \<lparr>req_params_id = 1, req_file = None,
      req_body = empty_body\<lparr>b_name := Some ''Chai'', b_variants :=
        Some [\<lparr>vi_id = Some 4, vi_name = Some ''Mine'', vi_price = None, vi_stock = None\<rparr>]\<rparr>\<rparr>"

text \<open>
  A callback that is not the controller's: it destroys variant 1 without passing the handle
  and then throws.
\<close>

definition destroy_outside :: "unit stx" where
  "destroy_outside =
     and_then
       (query (Variant_destroy \<lparr>v_id = 1, v_name = None, v_price = None, v_stock = None,
                                v_productId = None\<rparr>) (in_t\<lparr>opt_transaction := False\<rparr>))
       (\<lambda>_. throw TypeError)"

definition q_price :: "direction \<Rightarrow> query" where
  "q_price dir = \<lparr>q_name = None, q_categoryId = None, q_sortBy = Some ''price'', q_orderBy = Some dir,
            q_isPaginated = None, q_page = None, q_perPage = None\<rparr>"

section \<open>Properties\<close>

subsection \<open>Auxiliary facts: transactions\<close>

lemmas tx_defs = and_then_def throw_def resolve_def

lemma open_session_simps [simp]:
  "tx_view (open_session s) = s" "committed (open_session s) = s"
  "(open_session s)\<lparr>tx_view := s1\<rparr> = \<lparr>tx_view = s1, committed = s\<rparr>"
  by (simp_all add: open_session_def)

lemma in_t_transaction [simp]: "opt_transaction in_t"
  by (simp add: in_t_def)

lemma in_t_fields [simp]: "opt_fields in_t = None"
  by (simp add: in_t_def)

lemma query_in_t:
  "opt_transaction opts \<Longrightarrow>
     query call opts ss = (case call opts (tx_view ss) of (r, s') \<Rightarrow> (r, ss\<lparr>tx_view := s'\<rparr>))"
  by (simp add: query_def)

lemma fetch_in_t: "opt_transaction opts \<Longrightarrow> fetch read opts ss = (Inr (read (tx_view ss)), ss)"
  by (simp add: fetch_def)

subsection \<open>Every call of the mutations is inside the transaction\<close>

lemma keeps_throw [intro!, simp]: "keeps_committed (throw e)"
  by (simp add: keeps_committed_def throw_def)

lemma keeps_resolve [intro!, simp]: "keeps_committed (resolve x)"
  by (simp add: keeps_committed_def resolve_def)

lemma keeps_fetch [intro!, simp]: "keeps_committed (fetch read opts)"
  by (simp add: keeps_committed_def fetch_def)

lemma keeps_query [simp]: "opt_transaction opts \<Longrightarrow> keeps_committed (query call opts)"
  by (simp add: keeps_committed_def query_def split: prod.splits)

lemma keeps_and_then [intro!]:
  assumes "keeps_committed m" and "\<And>x. keeps_committed (f x)"
  shows "keeps_committed (and_then m f)"
  unfolding keeps_committed_def
proof
  fix ss
  obtain r ss1 where m: "m ss = (r, ss1)" by (cases "m ss")
  with assms(1) have c: "committed ss1 = committed ss"
    by (auto simp: keeps_committed_def dest: spec [of _ ss])
  show "committed (snd (and_then m f ss)) = committed ss"
  proof (cases r)
    case (Inl e)
    with m c show ?thesis by (simp add: and_then_def)
  next
    case (Inr x)
    with m c assms(2) [of x] show ?thesis
      by (auto simp: and_then_def keeps_committed_def dest: spec [of _ ss1])
  qed
qed

lemma keeps_delete_missing: "keeps_committed (delete_missing ids vd)"
proof (induction vd)
  case Nil
  show ?case by (simp add: keeps_committed_def resolve_def)
next
  case (Cons x rest)
  have "delete_missing ids (x # rest) =
      and_then (if v_id x \<in> set ids then resolve () else query (Variant_destroy x) in_t)
        (\<lambda>_. delete_missing ids rest)"
    by (rule ext) simp
  with Cons show ?case by auto
qed

lemma keeps_update_existing: "keeps_committed (update_existing E us)"
proof (induction us)
  case Nil
  show ?case by (simp add: keeps_committed_def resolve_def)
next
  case (Cons u rest)
  have "update_existing E (u # rest) =
      and_then
        (query (Variant_update E u (or_else (vi_id u) 0))
           (in_t\<lparr>opt_fields := Some [''name'', ''price'', ''stock'']\<rparr>))
        (\<lambda>n. if n = 0 then throw (ResponseError ''invalid variant id'' 400)
             else update_existing E rest)"
    by (rule ext) simp
  with Cons show ?case by auto
qed

lemma keeps_link_categories: "keeps_committed (link_categories categoryId productData)"
  by (auto simp: link_categories_def split: option.splits)

lemma keeps_create_variants: "keeps_committed (create_variants E vs productData)"
  by (auto simp: create_variants_def split: option.splits)

lemma keeps_reconcile_variants: "keeps_committed (reconcile_variants E vs productData)"
  by (auto simp: reconcile_variants_def keeps_delete_missing keeps_update_existing
      split: option.splits)

lemma keeps_createProduct_callback: "keeps_committed (createProduct_callback E req)"
  by (auto simp: createProduct_callback_def Let_def keeps_link_categories keeps_create_variants
      split: option.splits)

lemma keeps_editProductById_callback: "keeps_committed (editProductById_callback E req)"
  by (auto simp: editProductById_callback_def keeps_link_categories keeps_reconcile_variants
      split: sum.splits)

lemma transaction_failure:
  assumes "keeps_committed callback" and "callback (open_session s) = (Inl e, ss)"
  shows "committed ss = s \<and> transaction callback s = (Inl e, s)"
proof -
  from assms(1) have "committed (snd (callback (open_session s))) = s"
    by (simp add: keeps_committed_def)
  with assms(2) show ?thesis by (simp add: transaction_def)
qed

lemma transaction_unchanged_on_error:
  assumes "keeps_committed callback" and "transaction callback s = (Inl e, s')"
  shows "s' = s"
proof -
  obtain r ss where c: "callback (open_session s) = (r, ss)"
    by (cases "callback (open_session s)")
  from assms(1) have "committed (snd (callback (open_session s))) = s"
    by (simp add: keeps_committed_def)
  with c assms(2) show ?thesis by (cases r) (auto simp: transaction_def)
qed

subsection \<open>Auxiliary facts: the steps before the category block\<close>


lemma editProductById_callback_split:
  "editProductById_callback E req =
     and_then (edit_before_categories E req)
       (\<lambda>bp. and_then (link_categories (b_categoryId (fst bp)) (snd bp)) (\<lambda>_.
             and_then (reconcile_variants E (b_variants (fst bp)) (snd bp)) (\<lambda>_.
             fetch (Product_findByPk_include (req_params_id req)) in_t)))"
  by (rule ext)
     (simp add: editProductById_callback_def edit_before_categories_def tx_defs Let_def
        split: option.splits prod.splits sum.splits)

lemma editProductById_callback_split2:
  "editProductById_callback E req =
     and_then (edit_before_variants E req)
       (\<lambda>bp. and_then (reconcile_variants E (b_variants (fst bp)) (snd bp)) (\<lambda>_.
             fetch (Product_findByPk_include (req_params_id req)) in_t))"
  by (rule ext)
     (simp add: editProductById_callback_split edit_before_variants_def tx_defs
        split: option.splits prod.splits sum.splits)




lemma find_SomeD: "find P xs = Some x \<Longrightarrow> x \<in> set xs \<and> P x"
  by (induction xs) (auto split: if_splits)

lemma move_product_keys_same [simp]: "move_product_keys i i s = s"
proof -
  have "map (\<lambda>v. if v_productId v = Some i then v\<lparr>v_productId := Some i\<rparr> else v) (variants s) =
      variants s"
    by (intro map_idI) auto
  moreover have "map (\<lambda>l. if fst l = i then (i, snd l) else l) (productCategories s) =
      productCategories s"
    by (intro map_idI) auto
  ultimately show ?thesis by (simp add: move_product_keys_def)
qed

lemma Product_update_frame:
  assumes "Product_update E vals i opts s = (r, s1)"
  shows "categories s1 = categories s \<and> variantSeq s1 = variantSeq s"
  using assms
  by (auto simp: Product_update_def Let_def move_product_keys_def split: if_splits)

lemma Product_update_found:
  assumes u: "Product_update E vals i opts s = (r, s1)"
      and f: "Product_findByPk i s1 = Some p"
  shows "variants s1 = variants s \<and> productCategories s1 = productCategories s"
proof -
  let ?fs = "or_else (opt_fields opts) Product_attributes"
  let ?k = "or_else (take_field ?fs ''id'' (b_id vals)) i"
  let ?rows = "map (\<lambda>p. if p_id p = i then update_product_row E ?fs vals p else p) (products s)"
  from u consider "variants s1 = variants s \<and> productCategories s1 = productCategories s"
    | "s1 = (move_product_keys i ?k s)\<lparr>products := ?rows\<rparr>"
    by (auto simp: Product_update_def Let_def split: if_splits)
  then show ?thesis
  proof cases
    case 1
    then show ?thesis .
  next
    case 2
    with f have "find (\<lambda>p. p_id p = i) ?rows = Some p" by (simp add: Product_findByPk_def)
    note fs = find_SomeD [OF this]
    from fs have "p_id p = i" by (rule conjunct2)
    from fs have "p \<in> set ?rows" by (rule conjunct1)
    then obtain q where "q \<in> set (products s)"
      and "p = (if p_id q = i then update_product_row E ?fs vals q else q)"
      by auto
    with \<open>p_id p = i\<close> have "?k = i"
      by (cases "p_id q = i") (auto simp: update_product_row_def)
    with 2 show ?thesis by simp
  qed
qed


lemma edit_before_categories_frame:
  assumes "edit_before_categories E req ss = (Inr (body, pd), ss1)"
  shows "categories (tx_view ss1) = categories (tx_view ss)
       \<and> variantSeq (tx_view ss1) = variantSeq (tx_view ss)
       \<and> b_categoryId body = b_categoryId (req_body req)
       \<and> b_variants body = b_variants (req_body req)
       \<and> pd = Product_findByPk (req_params_id req) (tx_view ss1)
       \<and> (pd \<noteq> None \<longrightarrow> variants (tx_view ss1) = variants (tx_view ss))"
proof -
  from assms obtain body0 n s1 where
    w: "with_image E req = Inr body0"
    and u: "Product_update E body0 (req_params_id req)
          (in_t\<lparr>opt_field := Some [''name'', ''description'', ''image'', ''isActive'']\<rparr>) (tx_view ss) = (Inr n, s1)"
    and r: "body = body0" "pd = Product_findByPk (req_params_id req) s1" "ss1 = ss\<lparr>tx_view := s1\<rparr>"
    by (auto simp: edit_before_categories_def tx_defs query_in_t fetch_in_t
        split: sum.splits prod.splits if_splits)
  from w have "b_categoryId body0 = b_categoryId (req_body req)"
    and "b_variants body0 = b_variants (req_body req)"
    by (auto simp: with_image_def split: option.splits)
  with Product_update_frame [OF u] Product_update_found [OF u] r show ?thesis
    by auto
qed











subsection \<open>Auxiliary facts: the variant block\<close>

lemma delete_missing_result:
  "delete_missing ids vd ss =
     (Inr (), ss\<lparr>tx_view := (tx_view ss)\<lparr>variants :=
        filter (\<lambda>w. v_id w \<notin> v_id ` {v \<in> set vd. v_id v \<notin> set ids}) (variants (tx_view ss))\<rparr>\<rparr>)"
proof (induction vd arbitrary: ss)
  case Nil
  show ?case by (simp add: resolve_def)
next
  case (Cons x rest)
  show ?case
  proof (cases "v_id x \<in> set ids")
    case True
    then have "{v \<in> set (x # rest). v_id v \<notin> set ids} = {v \<in> set rest. v_id v \<notin> set ids}"
      by auto
    with True Cons.IH [of ss] show ?thesis by (simp add: tx_defs)
  next
    case False
    let ?ss1 = "ss\<lparr>tx_view := (tx_view ss)\<lparr>variants :=
        filter (\<lambda>v. v_id v \<noteq> v_id x) (variants (tx_view ss))\<rparr>\<rparr>"
    from False have "v_id ` {v \<in> set (x # rest). v_id v \<notin> set ids} =
        insert (v_id x) (v_id ` {v \<in> set rest. v_id v \<notin> set ids})"
      by auto
    with False Cons.IH [of ?ss1]
    show ?thesis by (simp add: tx_defs query_in_t Variant_destroy_def conj_commute)
  qed
qed

lemma own_missing_filter:
  assumes "distinct (map v_id vs)"
  shows "filter (\<lambda>w. v_id w \<notin> v_id ` {v \<in> set (filter (\<lambda>v. v_productId v = Some pid) vs).
                                        v_id v \<notin> A}) vs =
         filter (\<lambda>w. \<not> (v_productId w = Some pid \<and> v_id w \<notin> A)) vs"
proof (rule filter_cong [OF refl])
  fix w assume w: "w \<in> set vs"
  from assms have inj: "inj_on v_id (set vs)" by (simp add: distinct_map)
  show "(v_id w \<notin> v_id ` {v \<in> set (filter (\<lambda>v. v_productId v = Some pid) vs). v_id v \<notin> A}) =
        (\<not> (v_productId w = Some pid \<and> v_id w \<notin> A))"
    using w inj by (auto dest: inj_onD)
qed

text \<open>The delete loop on the variants of a product: the rows it removes.\<close>

lemma delete_missing_own:
  assumes "distinct (map v_id (variants (tx_view ss)))"
  shows "delete_missing ids (getVariants pid (tx_view ss)) ss =
     (Inr (), ss\<lparr>tx_view := (tx_view ss)\<lparr>variants :=
        filter (\<lambda>v. \<not> (v_productId v = Some pid \<and> v_id v \<notin> set ids)) (variants (tx_view ss))\<rparr>\<rparr>)"
  by (simp only: delete_missing_result getVariants_def own_missing_filter [OF assms])

lemma update_existing_result:
  "update_existing E us ss = (Inr (), ss') \<Longrightarrow>
     ss' = ss\<lparr>tx_view := (tx_view ss)\<lparr>variants := fold apply_update us (variants (tx_view ss))\<rparr>\<rparr>"
proof (induction us arbitrary: ss)
  case Nil
  then show ?case by (simp add: resolve_def)
next
  case (Cons u rest)
  from Cons.prems obtain n s1 where
    u: "Variant_update E u (or_else (vi_id u) 0)
          (in_t\<lparr>opt_fields := Some [''name'', ''price'', ''stock'']\<rparr>) (tx_view ss) = (Inr n, s1)"
    and n: "n \<noteq> 0"
    and r: "update_existing E rest (ss\<lparr>tx_view := s1\<rparr>) = (Inr (), ss')"
    by (auto simp: tx_defs query_in_t split: prod.splits sum.splits if_splits)
  from u n have "s1 = (tx_view ss)\<lparr>variants := apply_update u (variants (tx_view ss))\<rparr>"
    by (auto simp: Variant_update_def apply_update_def or_else_def Let_def split: if_splits)
  with Cons.IH [OF r] show ?case by simp
qed

lemma apply_update_ids [simp]: "map v_id (apply_update u vs) = map v_id vs"
  by (simp add: apply_update_def update_variant_row_def)

lemma fold_apply_update_ids [simp]: "map v_id (fold apply_update us vs) = map v_id vs"
  by (induction us arbitrary: vs) simp_all

lemma bulkCreate_new:
  assumes "list_all (\<lambda>u. \<not> truthy_id (vi_id u)) records"
      and "Variant_bulkCreate E records opts s = (Inr ids, s')"
      and "opt_fields opts = Some fs"
  shows "ids = [variantSeq s ..< variantSeq s + length records]
       \<and> s' = s\<lparr>variants := variants s @ map (new_variant_row fs) (enumerate (variantSeq s) records),
               variantSeq := variantSeq s + length records\<rparr>"
proof -
  from assms(1) have "map (\<lambda>iv. if truthy_id (vi_id (snd iv)) then or_else (vi_id (snd iv)) 0 else fst iv)
      (enumerate (variantSeq s) records) = map fst (enumerate (variantSeq s) records)"
    by (intro map_cong refl) (auto simp: list_all_iff enumerate_eq_zip dest: set_zip_rightD)
  with assms(2,3) show ?thesis
    by (auto simp: Variant_bulkCreate_def Let_def or_else_def split: if_splits)
qed

lemma addVariants_new:
  assumes "list_all (\<lambda>v. v_id v < n) old"
  shows "map (\<lambda>v. if v_id v \<in> set [n ..< n + length records] then v\<lparr>v_productId := Some pid\<rparr> else v)
           (old @ map (new_variant_row fs) (enumerate n records)) =
         old @ map (\<lambda>iu. (new_variant_row fs iu)\<lparr>v_productId := Some pid\<rparr>) (enumerate n records)"
proof -
  have "map (\<lambda>v. if v_id v \<in> set [n ..< n + length records] then v\<lparr>v_productId := Some pid\<rparr> else v) old = old"
    using assms by (intro map_idI) (auto simp: list_all_iff)
  moreover have "map (\<lambda>v. if v_id v \<in> set [n ..< n + length records] then v\<lparr>v_productId := Some pid\<rparr> else v)
      (map (new_variant_row fs) (enumerate n records)) =
      map (\<lambda>iu. (new_variant_row fs iu)\<lparr>v_productId := Some pid\<rparr>) (enumerate n records)"
    by (auto simp: new_variant_row_def enumerate_eq_zip dest!: set_zip_leftD)
  ultimately show ?thesis by simp
qed

lemma reconcile_variants_result:
  assumes d: "distinct (map v_id (variants (tx_view ss)))"
      and lt: "list_all (\<lambda>v. v_id v < variantSeq (tx_view ss)) (variants (tx_view ss))"
      and ne: "desired \<noteq> []"
      and ok: "reconcile_variants E (Some desired) (Some p) ss = (Inr (), ss')"
  shows "variants (tx_view ss') =
           fold apply_update (updateVariants desired)
             (filter (\<lambda>w. \<not> (v_productId w = Some (p_id p) \<and> v_id w \<notin> set (updateVariantsId desired)))
                (variants (tx_view ss)))
           @ map (\<lambda>iu. (new_variant_row [''name'', ''price'', ''stock''] iu)\<lparr>v_productId := Some (p_id p)\<rparr>)
               (enumerate (variantSeq (tx_view ss)) (newVariants desired))"
proof -
  let ?s = "tx_view ss"
  let ?kept = "filter (\<lambda>w. \<not> (v_productId w = Some (p_id p) \<and> v_id w \<notin> set (updateVariantsId desired)))
                (variants ?s)"
  let ?ss1 = "ss\<lparr>tx_view := ?s\<lparr>variants := ?kept\<rparr>\<rparr>"
  let ?opts = "in_t\<lparr>opt_fields := Some [''name'', ''price'', ''stock'']\<rparr>"
  note del = delete_missing_own [OF d, of "updateVariantsId desired" "p_id p"]
  from ok ne del obtain ss2 ids s3 where
    upd: "update_existing E (updateVariants desired) ?ss1 = (Inr (), ss2)"
    and new: "Variant_bulkCreate E (newVariants desired) ?opts (tx_view ss2) = (Inr ids, s3)"
    and add: "addVariants (p_id p) ids in_t s3 = (Inr (), tx_view ss')"
    by (auto simp: reconcile_variants_def tx_defs Let_def query_in_t fetch_in_t
        split: prod.splits sum.splits)
  from update_existing_result [OF upd]
  have s2: "tx_view ss2 = ?s\<lparr>variants := fold apply_update (updateVariants desired) ?kept\<rparr>" by simp
  have nw: "list_all (\<lambda>u. \<not> truthy_id (vi_id u)) (newVariants desired)"
    by (simp add: newVariants_def list_all_iff)
  have fo: "opt_fields ?opts = Some [''name'', ''price'', ''stock'']" by simp
  from bulkCreate_new [OF nw new fo] s2
  have ids: "ids = [variantSeq ?s ..< variantSeq ?s + length (newVariants desired)]"
    and s3: "variants s3 = fold apply_update (updateVariants desired) ?kept
               @ map (new_variant_row [''name'', ''price'', ''stock''])
                   (enumerate (variantSeq ?s) (newVariants desired))"
    by simp_all
  have "list_all (\<lambda>v. v_id v < variantSeq ?s) (fold apply_update (updateVariants desired) ?kept)"
    unfolding list_all_iff
  proof (rule ballI)
    fix v assume v: "v \<in> set (fold apply_update (updateVariants desired) ?kept)"
    have "set (map v_id (fold apply_update (updateVariants desired) ?kept)) = set (map v_id ?kept)"
      by (simp only: fold_apply_update_ids)
    then have "v_id ` set (fold apply_update (updateVariants desired) ?kept) = v_id ` set ?kept"
      by (simp only: set_map)
    with v have "v_id v \<in> v_id ` set ?kept" by blast
    then obtain w where "v_id v = v_id w" and "w \<in> set ?kept" by (rule imageE)
    with lt show "v_id v < variantSeq ?s" by (auto simp: list_all_iff)
  qed
  note fresh = addVariants_new [OF this, of "newVariants desired" "p_id p" "[''name'', ''price'', ''stock'']"]
  from add have "s3\<lparr>variants :=
      map (\<lambda>v. if v_id v \<in> set ids then v\<lparr>v_productId := Some (p_id p)\<rparr> else v) (variants s3)\<rparr> =
      tx_view ss'"
    by (simp add: addVariants_def)
  from this [symmetric] have "variants (tx_view ss') =
      map (\<lambda>v. if v_id v \<in> set ids then v\<lparr>v_productId := Some (p_id p)\<rparr> else v) (variants s3)"
    by simp
  also have "\<dots> = fold apply_update (updateVariants desired) ?kept
      @ map (\<lambda>iu. (new_variant_row [''name'', ''price'', ''stock''] iu)\<lparr>v_productId := Some (p_id p)\<rparr>)
          (enumerate (variantSeq ?s) (newVariants desired))"
    unfolding ids s3 by (rule fresh)
  finally show ?thesis .
qed

lemma truthy_id_iff: "truthy_id x \<longleftrightarrow> x \<noteq> None \<and> x \<noteq> Some 0"
  by (cases x) (auto simp: truthy_id_def)

lemma updateVariantsId_set:
  "set (updateVariantsId desired) = {i. i \<noteq> 0 \<and> Some i \<in> vi_id ` set desired}"
proof (intro set_eqI iffI)
  fix i assume "i \<in> set (updateVariantsId desired)"
  then obtain u where "u \<in> set desired" and "truthy_id (vi_id u)" and "i = or_else (vi_id u) 0"
    by (auto simp: updateVariantsId_def updateVariants_def)
  then show "i \<in> {i. i \<noteq> 0 \<and> Some i \<in> vi_id ` set desired}"
    by (cases "vi_id u") (auto simp: truthy_id_def or_else_def image_iff intro!: bexI [of _ u])
next
  fix i assume "i \<in> {i. i \<noteq> 0 \<and> Some i \<in> vi_id ` set desired}"
  then obtain u where "i \<noteq> 0" and u: "u \<in> set desired" and i: "vi_id u = Some i"
    by (auto simp: image_iff)
  then show "i \<in> set (updateVariantsId desired)"
    by (auto simp: updateVariantsId_def updateVariants_def truthy_id_def or_else_def image_iff
        intro!: bexI [of _ u])
qed

lemma link_categories_frame:
  "link_categories cs pd ss = (r, ss1) \<Longrightarrow>
     products (tx_view ss1) = products (tx_view ss) \<and> variants (tx_view ss1) = variants (tx_view ss)
     \<and> variantSeq (tx_view ss1) = variantSeq (tx_view ss)"
  by (auto simp: link_categories_def tx_defs setCategories_def Let_def query_in_t fetch_in_t
      split: option.splits if_splits)

lemma edit_before_variants_frame:
  assumes "edit_before_variants E req ss = (Inr (body, pd), ss1)"
  shows "variantSeq (tx_view ss1) = variantSeq (tx_view ss)
     \<and> b_variants body = b_variants (req_body req)
     \<and> (\<forall>p. pd = Some p \<longrightarrow> p_id p = req_params_id req \<and> variants (tx_view ss1) = variants (tx_view ss))"
proof -
  from assms obtain ss0 where
    a: "edit_before_categories E req ss = (Inr (body, pd), ss0)"
    and b: "link_categories (b_categoryId body) pd ss0 = (Inr (), ss1)"
    by (auto simp: edit_before_variants_def tx_defs split: prod.splits sum.splits)
  from edit_before_categories_frame [OF a] link_categories_frame [OF b]
  show ?thesis by (auto simp: Product_findByPk_def dest: find_SomeD)
qed

lemma edit_success_steps:
  assumes "editProductById E req s = (Inr r, s')"
  shows "\<exists>body pd ss1 ss'. edit_before_variants E req (open_session s) = (Inr (body, pd), ss1)
           \<and> reconcile_variants E (b_variants body) pd ss1 = (Inr (), ss') \<and> tx_view ss' = s'"
proof -
  from assms obtain ss' where
    "editProductById_callback E req (open_session s) = (Inr r, ss')" and "tx_view ss' = s'"
    by (auto simp: editProductById_def transaction_def split: prod.splits sum.splits)
  then show ?thesis
    by (auto simp: editProductById_callback_split2 tx_defs fetch_in_t split: prod.splits sum.splits)
qed

subsection \<open>Auxiliary facts: the calls on Product\<close>

lemma createProduct_needs_upload:
  "req_file req = None \<Longrightarrow> createProduct E req s = (Inl TypeError, s)"
  by (simp add: createProduct_def createProduct_callback_def transaction_def throw_def)

lemma createProduct_normalize_failure:
  "req_file req = Some buffer \<Longrightarrow> sharp E buffer = None \<Longrightarrow>
     createProduct_callback E req ss = (Inl SharpError, ss)"
  by (simp add: createProduct_callback_def throw_def)

lemma Product_create_takes_body_identity:
  assumes "Product_create E vals (in_t\<lparr>opt_field := fs\<rparr>) s = (Inr row, s')"
      and "b_id vals = Some k" and "k \<noteq> 0"
  shows "p_id row = k \<and> row \<in> set (products s')"
  using assms
  by (auto simp: Product_create_def Let_def or_else_def take_field_def Product_attributes_def
      split: if_splits)

lemma Product_create_fields_ignore_identity:
  assumes "Product_create E vals opts s = (Inr row, s')"
      and "opt_fields opts = Some fs" and "''id'' \<notin> set fs"
  shows "p_id row = productSeq s"
  using assms
  by (auto simp: Product_create_def Let_def or_else_def take_field_def split: if_splits)

text \<open>A write that does not pass the handle is not undone by the rollback.\<close>

lemma write_without_handle_survives:
  "map v_id (variants demo_store) = [1, 2, 3, 4]
   \<and> fst (transaction destroy_outside demo_store) = Inl TypeError
   \<and> map v_id (variants (snd (transaction destroy_outside demo_store))) = [2, 3, 4]"
  by code_simp


subsection \<open>The claims on the variant block\<close>

text \<open>
  C1 fails as stated: an input that carries the identity 0 is not updated but created, since
  \<^verbatim>\<open>!variant?.id\<close> takes 0 for no identity. Editing product 1 with the body
  \<^verbatim>\<open>{name: "Chai", variants: [{id: 0, name: "Z"}]}\<close> succeeds, deletes A, B and C and
  creates Z.
\<close>

theorem zero_identity_is_created:
  "map vi_id desired_zero = [Some 0]
   \<and> newVariants desired_zero = desired_zero
   \<and> updateVariants desired_zero = []
   \<and> \<not> isl (fst (editProductById demo_env req_zero_id demo_store))
   \<and> variants (snd (editProductById demo_env req_zero_id demo_store)) =
       [\<lparr>v_id = 4, v_name = Some ''E'', v_price = Some 20, v_stock = Some 1, v_productId = Some 2\<rparr>,
        \<lparr>v_id = 5, v_name = Some ''Z'', v_price = None, v_stock = None, v_productId = Some 1\<rparr>]"
  by code_simp

text \<open>
  C1, amended. In every edit that supplies a non-empty variant list, on a store whose keys
  are distinct: the inputs to create are those whose identity is absent or 0, the inputs to
  update are those with an identity other than 0, and the delete loop, run on the variants of a
  product, removes exactly those whose identity is not among the identities of the inputs to
  update. An edit that returns has carried this out: the variants of the store that are gone
  are the variants of the edited product whose identity is not among those of the inputs to
  update, and the table of variants is the kept rows, updated input by input, followed by
  one new row for each input to create, owned by the product. An edit that throws leaves the
  store as it was.
\<close>

theorem variant_reconciliation:
  assumes wf: "wf_store s"
      and vs: "b_variants (req_body req) = Some desired" and ne: "desired \<noteq> []"
  shows "newVariants desired = filter (\<lambda>u. vi_id u = None \<or> vi_id u = Some 0) desired
       \<and> updateVariants desired = filter (\<lambda>u. vi_id u \<noteq> None \<and> vi_id u \<noteq> Some 0) desired
       \<and> set (updateVariantsId desired) = {i. i \<noteq> 0 \<and> Some i \<in> vi_id ` set desired}
       \<and> (\<forall>ss pid. distinct (map v_id (variants (tx_view ss))) \<longrightarrow>
            delete_missing (updateVariantsId desired) (getVariants pid (tx_view ss)) ss =
              (Inr (), ss\<lparr>tx_view := (tx_view ss)\<lparr>variants :=
                 filter (\<lambda>v. \<not> (v_productId v = Some pid \<and> v_id v \<notin> set (updateVariantsId desired)))
                   (variants (tx_view ss))\<rparr>\<rparr>))
       \<and> (\<forall>r s'. editProductById E req s = (Inr r, s') \<longrightarrow>
            {v \<in> set (variants s). v_id v \<notin> v_id ` set (variants s')} =
              {v \<in> set (variants s).
                 v_productId v = Some (req_params_id req) \<and> v_id v \<notin> set (updateVariantsId desired)}
            \<and> variants s' =
                fold apply_update (updateVariants desired)
                  (filter (\<lambda>v. \<not> (v_productId v = Some (req_params_id req)
                                    \<and> v_id v \<notin> set (updateVariantsId desired))) (variants s))
                @ map (\<lambda>iu. (new_variant_row [''name'', ''price'', ''stock''] iu)
                               \<lparr>v_productId := Some (req_params_id req)\<rparr>)
                    (enumerate (variantSeq s) (newVariants desired)))
       \<and> (\<forall>e s'. editProductById E req s = (Inl e, s') \<longrightarrow> s' = s)"
proof (intro conjI allI impI)
  show "newVariants desired = filter (\<lambda>u. vi_id u = None \<or> vi_id u = Some 0) desired"
    unfolding newVariants_def by (intro filter_cong refl) (auto simp: truthy_id_iff)
  show "updateVariants desired = filter (\<lambda>u. vi_id u \<noteq> None \<and> vi_id u \<noteq> Some 0) desired"
    unfolding updateVariants_def by (intro filter_cong refl) (auto simp: truthy_id_iff)
  show "set (updateVariantsId desired) = {i. i \<noteq> 0 \<and> Some i \<in> vi_id ` set desired}"
    by (rule updateVariantsId_set)
next
  fix ss :: session and pid
  assume "distinct (map v_id (variants (tx_view ss)))"
  then show "delete_missing (updateVariantsId desired) (getVariants pid (tx_view ss)) ss =
      (Inr (), ss\<lparr>tx_view := (tx_view ss)\<lparr>variants :=
         filter (\<lambda>v. \<not> (v_productId v = Some pid \<and> v_id v \<notin> set (updateVariantsId desired)))
           (variants (tx_view ss))\<rparr>\<rparr>)"
    by (rule delete_missing_own)
next
  fix e s' assume "editProductById E req s = (Inl e, s')"
  then show "s' = s"
    unfolding editProductById_def
    by (rule transaction_unchanged_on_error [OF keeps_editProductById_callback])
next
  fix r s' assume ok: "editProductById E req s = (Inr r, s')"
  let ?pid = "req_params_id req"
  let ?ids = "set (updateVariantsId desired)"
  let ?kept = "filter (\<lambda>v. \<not> (v_productId v = Some ?pid \<and> v_id v \<notin> ?ids)) (variants s)"
  let ?new = "map (\<lambda>iu. (new_variant_row [''name'', ''price'', ''stock''] iu)\<lparr>v_productId := Some ?pid\<rparr>)
                 (enumerate (variantSeq s) (newVariants desired))"
  from wf have d: "distinct (map v_id (variants s))"
    and lt: "list_all (\<lambda>v. v_id v < variantSeq s) (variants s)"
    by (simp_all add: wf_store_def)
  from edit_success_steps [OF ok] obtain body pd ss1 ss' where
    pre: "edit_before_variants E req (open_session s) = (Inr (body, pd), ss1)"
    and rec: "reconcile_variants E (b_variants body) pd ss1 = (Inr (), ss')"
    and s': "tx_view ss' = s'"
    by blast
  from edit_before_variants_frame [OF pre] vs have
    q1: "variantSeq (tx_view ss1) = variantSeq s"
    and bv: "b_variants body = Some desired"
    and pid: "\<forall>p. pd = Some p \<longrightarrow> p_id p = ?pid \<and> variants (tx_view ss1) = variants s"
    by simp_all
  from rec bv ne obtain p where p: "pd = Some p"
    by (cases pd) (auto simp: reconcile_variants_def throw_def)
  with pid have pp: "p_id p = ?pid" and v1: "variants (tx_view ss1) = variants s" by simp_all
  from reconcile_variants_result [of ss1 desired E p ss'] d lt ne rec bv p v1 q1 pp s'
  have D: "variants s' = fold apply_update (updateVariants desired) ?kept @ ?new"
    by simp
  have "set (map v_id (fold apply_update (updateVariants desired) ?kept)) = set (map v_id ?kept)"
    by (simp only: fold_apply_update_ids)
  then have k: "v_id ` set (fold apply_update (updateVariants desired) ?kept) = v_id ` set ?kept"
    by (simp only: set_map)
  have "map v_id ?new = map fst (enumerate (variantSeq s) (newVariants desired))"
    by (simp add: new_variant_row_def comp_def)
  then have "set (map v_id ?new) = {variantSeq s ..< variantSeq s + length (newVariants desired)}"
    by simp
  then have n: "v_id ` set ?new = {variantSeq s ..< variantSeq s + length (newVariants desired)}"
    by (simp only: set_map)
  from D k n have ids': "v_id ` set (variants s') =
      v_id ` set ?kept \<union> {variantSeq s ..< variantSeq s + length (newVariants desired)}"
    by (simp only: set_append image_Un)
  from d have inj: "inj_on v_id (set (variants s))" by (simp add: distinct_map)
  have C: "{v \<in> set (variants s). v_id v \<notin> v_id ` set (variants s')} =
      {v \<in> set (variants s). v_productId v = Some ?pid \<and> v_id v \<notin> ?ids}"
  proof (rule Collect_cong)
    fix v
    show "(v \<in> set (variants s) \<and> v_id v \<notin> v_id ` set (variants s')) =
        (v \<in> set (variants s) \<and> v_productId v = Some ?pid \<and> v_id v \<notin> ?ids)"
    proof (cases "v \<in> set (variants s)")
      case False
      then show ?thesis by simp
    next
      case True
      with lt have "v_id v < variantSeq s" by (simp add: list_all_iff)
      then have fresh: "v_id v \<notin> {variantSeq s ..< variantSeq s + length (newVariants desired)}"
        by simp
      have "v_id v \<in> v_id ` set ?kept \<longleftrightarrow> \<not> (v_productId v = Some ?pid \<and> v_id v \<notin> ?ids)"
      proof
        assume "v_id v \<in> v_id ` set ?kept"
        then obtain w where e: "v_id v = v_id w" and w: "w \<in> set ?kept" by (rule imageE)
        from w have "w \<in> set (variants s)" by simp
        with inj True e have "w = v" by (auto dest: inj_onD)
        with w show "\<not> (v_productId v = Some ?pid \<and> v_id v \<notin> ?ids)" by simp
      next
        assume "\<not> (v_productId v = Some ?pid \<and> v_id v \<notin> ?ids)"
        with True have "v \<in> set ?kept" by simp
        then show "v_id v \<in> v_id ` set ?kept" by (rule imageI)
      qed
      with True fresh ids' show ?thesis by simp
    qed
  qed
  show "{v \<in> set (variants s). v_id v \<notin> v_id ` set (variants s')} =
      {v \<in> set (variants s). v_productId v = Some ?pid \<and> v_id v \<notin> ?ids}"
    by (rule C)
  show "variants s' = fold apply_update (updateVariants desired) ?kept @ ?new"
    by (rule D)
qed

text \<open>
  The sample of the specification: product 1 owns A, B and C (variants 1, 2, 3); the body is
  a new name for the product and the inputs B, with a new name, and D, without an identity.
  A and C are deleted, B is updated, D is created as variant 5 of product 1; variant 4 of
  product 2 is untouched.
\<close>

theorem variant_reconciliation_witness:
  "wf_store demo_store
   \<and> b_variants (req_body req_reconcile) = Some desired_BD
   \<and> \<not> isl (fst (editProductById demo_env req_reconcile demo_store))
   \<and> map vi_name (newVariants desired_BD) = [Some ''D'']
   \<and> map vi_name (updateVariants desired_BD) = [Some ''B2'']
   \<and> {v \<in> set (variants demo_store).
         v_id v \<notin> v_id ` set (variants (snd (editProductById demo_env req_reconcile demo_store)))} =
       {v \<in> set (variants demo_store). v_productId v = Some 1 \<and> v_id v \<notin> set (updateVariantsId desired_BD)}
   \<and> map v_name (filter (\<lambda>v. v_productId v = Some 1 \<and> v_id v \<notin> set (updateVariantsId desired_BD))
        (variants demo_store)) = [Some ''A'', Some ''C'']
   \<and> variants (snd (editProductById demo_env req_reconcile demo_store)) =
       [\<lparr>v_id = 2, v_name = Some ''B2'', v_price = Some 30, v_stock = Some 5, v_productId = Some 1\<rparr>,
        \<lparr>v_id = 4, v_name = Some ''E'', v_price = Some 20, v_stock = Some 1, v_productId = Some 2\<rparr>,
        \<lparr>v_id = 5, v_name = Some ''D'', v_price = Some 7, v_stock = None, v_productId = Some 1\<rparr>]"
proof -
  let ?X = "editProductById demo_env req_reconcile demo_store"
  have a: "wf_store demo_store" by code_simp
  have b: "b_variants (req_body req_reconcile) = Some desired_BD"
    by (simp add: req_reconcile_def empty_body_def)
  have c: "desired_BD \<noteq> []" by (simp add: desired_BD_def)
  have e: "\<not> isl (fst ?X)" by code_simp
  then have ok: "?X = (Inr (projr (fst ?X)), snd ?X)" by (simp add: prod_eq_iff)
  have f: "map vi_name (newVariants desired_BD) = [Some ''D'']" by code_simp
  have g: "map vi_name (updateVariants desired_BD) = [Some ''B2'']" by code_simp
  have h: "map v_name (filter (\<lambda>v. v_productId v = Some 1 \<and> v_id v \<notin> set (updateVariantsId desired_BD))
        (variants demo_store)) = [Some ''A'', Some ''C'']"
    by code_simp
  have k: "variants (snd ?X) =
       [\<lparr>v_id = 2, v_name = Some ''B2'', v_price = Some 30, v_stock = Some 5, v_productId = Some 1\<rparr>,
        \<lparr>v_id = 4, v_name = Some ''E'', v_price = Some 20, v_stock = Some 1, v_productId = Some 2\<rparr>,
        \<lparr>v_id = 5, v_name = Some ''D'', v_price = Some 7, v_stock = None, v_productId = Some 1\<rparr>]"
    by code_simp
  have r: "req_params_id req_reconcile = 1" by (simp add: req_reconcile_def)
  note t = variant_reconciliation [OF a b c, of demo_env, unfolded r, THEN conjunct2, THEN conjunct2,
      THEN conjunct2, THEN conjunct2, THEN conjunct1, rule_format, OF ok, THEN conjunct1]
  show ?thesis by (intro conjI a b e f g h k t)
qed

text \<open>
  C4. The update of a supplied identity is \<^verbatim>\<open>Variant.update\<close> with
  \<^verbatim>\<open>where: {id: updateVariant.id}\<close>, matched against the whole table of variants,
  whereas the delete loop beside it runs on \<^verbatim>\<open>productData.getVariants\<close>. Editing product 1
  with the body \<^verbatim>\<open>{name: "Chai", variants: [{id: 4, name: "Mine"}]}\<close>, where variant 4
  belongs to product 2, does not fail: it renames the variant of product 2 and deletes the
  three variants of product 1.
\<close>

theorem foreign_variant_accepted:
  "map v_id (getVariants 1 demo_store) = [1, 2, 3]
   \<and> map (\<lambda>v. (v_id v, v_productId v)) (variants demo_store) =
       [(1, Some 1), (2, Some 1), (3, Some 1), (4, Some 2)]
   \<and> \<not> isl (fst (editProductById demo_env req_foreign_variant demo_store))
   \<and> variants (snd (editProductById demo_env req_foreign_variant demo_store)) =
       [\<lparr>v_id = 4, v_name = Some ''Mine'', v_price = Some 20, v_stock = Some 1,
         v_productId = Some 2\<rparr>]"
  by code_simp

subsection \<open>The claim on the rollback\<close>

text \<open>
  C2. Every store call of an edit passes the handle of the transaction, so the callback
  never touches the committed store. Whatever step of an edit throws, and whatever the store
  of the transaction looks like at the throw, the committed store is the initial one and the
  edit returns the error and that store: the product rows, the variants and the category links
  are those of before the edit. (\<open>write_without_handle_survives\<close> shows a callback for which
  this fails.)
\<close>

theorem edit_rollback:
  assumes "editProductById_callback E req (open_session s) = (Inl e, ss)"
  shows "committed ss = s
       \<and> editProductById E req s = (Inl e, s)
       \<and> products (snd (editProductById E req s)) = products s
       \<and> variants (snd (editProductById E req s)) = variants s
       \<and> productCategories (snd (editProductById E req s)) = productCategories s"
  using transaction_failure [OF keeps_editProductById_callback assms]
  by (simp add: editProductById_def)

text \<open>
  In the sample, the edit renames product 1, deletes its variants 1 and 3, updates variant 2
  and then fails on the unknown variant 9; the store returned is the initial one.
\<close>

theorem edit_rollback_witness:
  "fst (editProductById_callback demo_env req_bad_variant (open_session demo_store)) =
     Inl (ResponseError ''invalid variant id'' 400)
   \<and> map p_name (products (tx_view (snd (editProductById_callback demo_env req_bad_variant
        (open_session demo_store))))) = [Some ''Chai'', Some ''Coffee'', Some ''Water'']
   \<and> map v_id (variants (tx_view (snd (editProductById_callback demo_env req_bad_variant
        (open_session demo_store))))) = [2, 4]
   \<and> committed (snd (editProductById_callback demo_env req_bad_variant (open_session demo_store))) =
       demo_store
   \<and> editProductById demo_env req_bad_variant demo_store =
       (Inl (ResponseError ''invalid variant id'' 400), demo_store)"
proof -
  let ?C = "editProductById_callback demo_env req_bad_variant (open_session demo_store)"
  have a: "fst ?C = Inl (ResponseError ''invalid variant id'' 400)"
    by code_simp
  have b: "map p_name (products (tx_view (snd ?C))) = [Some ''Chai'', Some ''Coffee'', Some ''Water'']"
    by code_simp
  have c: "map v_id (variants (tx_view (snd ?C))) = [2, 4]"
    by code_simp
  have "?C = (Inl (ResponseError ''invalid variant id'' 400), snd ?C)"
    using a by (simp add: prod_eq_iff)
  note t = edit_rollback [OF this]
  show ?thesis by (intro conjI a b c t [THEN conjunct1] t [THEN conjunct2, THEN conjunct1])
qed

subsection \<open>The claims on the category block\<close>







subsection \<open>The claim on the fields of a product\<close>

text \<open>
  C5. Both mutations pass the list of the four fields under the key \<^verbatim>\<open>field\<close>, which
  Sequelize does not read (the variant calls pass \<^verbatim>\<open>fields\<close>), so every attribute of
  Product that the body holds is written. A body with \<^verbatim>\<open>id: 42\<close> and
  \<^verbatim>\<open>createdAt: 7\<close> creates product 42 with that creation time, and an edit of product 1
  with that body turns it into product 42. With the same list under \<^verbatim>\<open>fields\<close> the
  created product would be number 4, created at the time of the clock.
\<close>

theorem product_fields_not_restricted:
  "map (\<lambda>p. (p_id p, p_createdAt p)) (products demo_store) = [(1, 10), (2, 20), (3, 30)]
   \<and> map (\<lambda>p. (p_id p, p_createdAt p))
        (products (snd (createProduct demo_env req_extra_fields demo_store))) =
      [(1, 10), (2, 20), (3, 30), (42, 7)]
   \<and> map (\<lambda>p. (p_id p, p_createdAt p))
        (products (snd (editProductById demo_env req_extra_fields demo_store))) =
      [(42, 7), (2, 20), (3, 30)]
   \<and> map_sum id (\<lambda>p. (p_id p, p_createdAt p))
        (fst (Product_create demo_env (req_body req_extra_fields)
               \<lparr>opt_fields = Some [''name'', ''description'', ''image'', ''isActive''],
                opt_field = None, opt_transaction = True\<rparr> demo_store)) = Inr (4, 100)"
  by code_simp

subsection \<open>The claims on the payload and the upload\<close>

text \<open>
  C6. An edit whose payload is empty (no key in the body and no uploaded file) fails with
  "no data provided", status 400 (InvalidInput), and the state at the throw is the state the
  callback started from: nothing was written.
\<close>

theorem edit_empty_payload:
  assumes "req_file req = None" and "Object_keys (req_body req) = []"
  shows "editProductById_callback E req ss = (Inl (ResponseError ''no data provided'' 400), ss)
       \<and> editProductById E req s = (Inl (ResponseError ''no data provided'' 400), s)
       \<and> kind_of (ResponseError ''no data provided'' 400) = InvalidInput"
  using assms
  by (simp add: editProductById_def editProductById_callback_def with_image_def transaction_def
      tx_defs)

theorem edit_empty_payload_witness:
  "req_file req_empty = None \<and> Object_keys (req_body req_empty) = []
   \<and> editProductById_callback demo_env req_empty (open_session demo_store) =
       (Inl (ResponseError ''no data provided'' 400), open_session demo_store)
   \<and> editProductById demo_env req_empty demo_store =
       (Inl (ResponseError ''no data provided'' 400), demo_store)"
proof -
  have a: "req_file req_empty = None" by (simp add: req_empty_def)
  have b: "Object_keys (req_body req_empty) = []"
    by (simp add: req_empty_def empty_body_def Object_keys_def)
  note t = edit_empty_payload [OF a b, of demo_env "open_session demo_store" demo_store]
  show ?thesis by (intro conjI a b t [THEN conjunct1] t [THEN conjunct2, THEN conjunct1])
qed

text \<open>
  C9. \<^verbatim>\<open>createProduct\<close> reads \<^verbatim>\<open>req.file.buffer\<close> without asking whether a file was
  uploaded: a create request without an upload throws a TypeError at the normalisation step,
  before any write. \<^verbatim>\<open>editProductById\<close> asks (\<^verbatim>\<open>if (req.file)\<close>) and accepts the same
  request.
\<close>

theorem create_without_upload:
  "req_file req_no_file = None
   \<and> createProduct_callback demo_env req_no_file (open_session demo_store) =
       (Inl TypeError, open_session demo_store)
   \<and> createProduct demo_env req_no_file demo_store = (Inl TypeError, demo_store)
   \<and> \<not> isl (fst (editProductById demo_env req_no_file demo_store))"
proof -
  have a: "req_file req_no_file = None" by (simp add: req_no_file_def)
  have b: "createProduct_callback demo_env req_no_file (open_session demo_store) =
      (Inl TypeError, open_session demo_store)"
    using a by (simp add: createProduct_callback_def throw_def)
  have c: "createProduct demo_env req_no_file demo_store = (Inl TypeError, demo_store)"
    using a by (rule createProduct_needs_upload)
  have d: "\<not> isl (fst (editProductById demo_env req_no_file demo_store))"
    by code_simp
  show ?thesis by (intro conjI a b c d)
qed

subsection \<open>Auxiliary facts: the listing\<close>

lemma order_by_set: "set (order_by key dir ps) = set ps"
  by (cases dir) (simp_all add: order_by_def)

lemma ordered_set: "ordered E q s ps = Inr rows \<Longrightarrow> set rows = set ps"
  by (auto simp: ordered_def order_by_set split: if_splits option.splits)

lemma paginate_subset: "paginate q xs = Inr ys \<Longrightarrow> set ys \<subseteq> set xs"
  by (auto simp: paginate_def split: if_splits dest: in_set_takeD in_set_dropD)

lemma find_products_subset:
  assumes "find_products E q s cands = Inr vs"
  shows "set vs \<subseteq> view_of s ` {p \<in> set cands. where_name E q p}"
proof -
  from assms obtain rows shown where
    o: "ordered E q s (filter (where_name E q) cands) = Inr rows"
    and p: "paginate q rows = Inr shown" and v: "vs = map (view_of s) shown"
    by (auto simp: find_products_def split: sum.splits)
  from ordered_set [OF o] paginate_subset [OF p] v show ?thesis by auto
qed

lemma findByPk_None: "Category_findByPk c s = None \<longleftrightarrow> c \<notin> c_id ` set (categories s)"
  by (auto simp: Category_findByPk_def find_None_iff)

lemma findByPk_Some: "Category_findByPk c s = Some cat \<Longrightarrow> c_id cat = c"
  by (auto simp: Category_findByPk_def find_Some_iff)

subsection \<open>The claims on the listing\<close>

text \<open>
  C7 fails as stated: a category scope that resolves to no Category fails with
  "invalid categoryId", status 400, which is not NotFound.
\<close>

theorem getProducts_unknown_category_not_404:
  "Category_findByPk 999 demo_store = None
   \<and> getProducts demo_env (q_all\<lparr>q_categoryId := Some 999\<rparr>) demo_store =
        Inl (ResponseError ''invalid categoryId'' 400)
   \<and> kind_of (ResponseError ''invalid categoryId'' 400) \<noteq> NotFound"
  by code_simp


text \<open>
  C7, amended. With a category scope \<open>c\<close>: if no Category has that identity the listing
  fails with "invalid categoryId", status 400 (InvalidReference); if one has, every listing
  returned counts the products that are linked to \<open>c\<close> and pass the name filter, and shows
  only such products.
\<close>

theorem getProducts_category_scope:
  assumes "q_categoryId q = Some c"
  shows "(c \<notin> c_id ` set (categories s) \<longrightarrow>
            getProducts E q s = Inl (ResponseError ''invalid categoryId'' 400))
       \<and> kind_of (ResponseError ''invalid categoryId'' 400) = InvalidReference
       \<and> (c \<in> c_id ` set (categories s) \<longrightarrow>
            (\<forall>r. getProducts E q s = Inr r \<longrightarrow>
               l_total_data r =
                 length (filter (\<lambda>p. (p_id p, c) \<in> set (productCategories s) \<and> where_name E q p)
                           (products s))
               \<and> set (l_data r) \<subseteq>
                   view_of s ` {p \<in> set (products s).
                                  (p_id p, c) \<in> set (productCategories s) \<and> where_name E q p}))"
proof (intro conjI impI allI)
  assume "c \<notin> c_id ` set (categories s)"
  then have "Category_findByPk c s = None" by (simp add: findByPk_None)
  with assms show "getProducts E q s = Inl (ResponseError ''invalid categoryId'' 400)"
    by (simp add: getProducts_def)
next
  show "kind_of (ResponseError ''invalid categoryId'' 400) = InvalidReference" by simp
next
  fix r
  assume "c \<in> c_id ` set (categories s)" and r: "getProducts E q s = Inr r"
  then obtain cat where cat: "Category_findByPk c s = Some cat"
    using findByPk_None [of c s] by (cases "Category_findByPk c s") auto
  then have c: "c_id cat = c" by (rule findByPk_Some)
  from r assms cat obtain vs where
    f: "find_products E q s (products_of cat s) = Inr vs"
    and r': "r = respond q vs (length (filter (where_name E q) (products_of cat s)))"
    by (auto simp: getProducts_def split: sum.splits)
  from r' c show "l_total_data r =
      length (filter (\<lambda>p. (p_id p, c) \<in> set (productCategories s) \<and> where_name E q p) (products s))"
    by (simp add: respond_def products_of_def conj_commute)
  from find_products_subset [OF f] r' c
  show "set (l_data r) \<subseteq>
      view_of s ` {p \<in> set (products s). (p_id p, c) \<in> set (productCategories s) \<and> where_name E q p}"
    by (auto simp: respond_def products_of_def)
qed

theorem getProducts_category_scope_witness:
  "q_categoryId (q_all\<lparr>q_categoryId := Some 999\<rparr>) = Some 999
   \<and> 999 \<notin> c_id ` set (categories demo_store)
   \<and> getProducts demo_env (q_all\<lparr>q_categoryId := Some 999\<rparr>) demo_store =
        Inl (ResponseError ''invalid categoryId'' 400)
   \<and> 2 \<in> c_id ` set (categories demo_store)
   \<and> map_sum id (\<lambda>r. (map (p_id \<circ> pv_product) (l_data r), l_total_data r))
        (getProducts demo_env (q_all\<lparr>q_categoryId := Some 2\<rparr>) demo_store) = Inr ([2], 1)"
proof -
  have a: "q_categoryId (q_all\<lparr>q_categoryId := Some 999\<rparr>) = Some 999" by simp
  have b: "999 \<notin> c_id ` set (categories demo_store)" by (simp add: demo_store_def)
  have c: "map_sum id (\<lambda>r. (map (p_id \<circ> pv_product) (l_data r), l_total_data r))
        (getProducts demo_env (q_all\<lparr>q_categoryId := Some 2\<rparr>) demo_store) = Inr ([2], 1)"
    by code_simp
  have d: "2 \<in> c_id ` set (categories demo_store)" by (simp add: demo_store_def)
  from getProducts_category_scope [OF a, of demo_store demo_env] b
  have e: "getProducts demo_env (q_all\<lparr>q_categoryId := Some 999\<rparr>) demo_store =
        Inl (ResponseError ''invalid categoryId'' 400)"
    by blast
  show ?thesis by (intro conjI a b c d e)
qed

subsection \<open>Auxiliary facts: the order by price\<close>

lemma max_price_view [simp]: "max_price s (pv_product (view_of s p)) = max_price s p"
  by (simp add: max_price_def view_of_def)

lemma max_price_eq:
  "max_price s p =
     (if {x. \<exists>v\<in>set (variants s). v_productId v = Some (p_id p) \<and> v_price v = Some x} = {}
      then None
      else Some (Max {x. \<exists>v\<in>set (variants s). v_productId v = Some (p_id p) \<and> v_price v = Some x}))"
proof -
  let ?xs = "List.map_filter v_price (filter (\<lambda>v. v_productId v = Some (p_id p)) (variants s))"
  have s: "set ?xs = {x. \<exists>v\<in>set (variants s). v_productId v = Some (p_id p) \<and> v_price v = Some x}"
    by (force simp: map_filter_def image_iff)
  show ?thesis
  proof (cases ?xs)
    case Nil
    with s show ?thesis by (simp add: max_price_def)
  next
    case (Cons x xs)
    have "fold max xs x = Max (set (x # xs))" by (rule Max.set_eq_fold [symmetric])
    with Cons have "max_price s p = Some (Max (set ?xs))" by (simp add: max_price_def)
    moreover from Cons have "set ?xs \<noteq> {}" by simp
    ultimately show ?thesis unfolding s by simp
  qed
qed

lemma order_by_sorted:
  "(case dir of
      ASC \<Rightarrow> sorted_wrt (\<lambda>a b. key a \<le> key b) (order_by key dir ps)
    | DESC \<Rightarrow> sorted_wrt (\<lambda>a b. key b \<le> key a) (order_by key dir ps))"
proof (cases dir)
  case ASC
  have "sorted (map key (sort_key key ps))" by (rule sorted_sort_key)
  then show ?thesis using ASC by (simp add: order_by_def sorted_map)
next
  case DESC
  have "sorted (map key (sort_key key ps))" by (rule sorted_sort_key)
  then have "sorted_wrt (\<lambda>a b. key a \<le> key b) (sort_key key ps)" by (simp add: sorted_map)
  then show ?thesis using DESC by (simp add: order_by_def sorted_wrt_rev)
qed

lemma paginate_sorted:
  "paginate q xs = Inr ys \<Longrightarrow> sorted_wrt R xs \<Longrightarrow> sorted_wrt R ys"
  by (auto simp: paginate_def split: if_splits intro: sorted_wrt_take sorted_wrt_drop)

lemma find_products_price_sorted:
  assumes "q_sortBy q = Some ''price''" and "find_products E q s cands = Inr vs"
  shows "(case or_else (q_orderBy q) DESC of
            ASC \<Rightarrow> sorted_wrt (\<lambda>a b. max_price s (pv_product a) \<le> max_price s (pv_product b)) vs
          | DESC \<Rightarrow> sorted_wrt (\<lambda>a b. max_price s (pv_product b) \<le> max_price s (pv_product a)) vs)"
proof -
  let ?dir = "or_else (q_orderBy q) DESC"
  let ?rows = "order_by (max_price s) ?dir (filter (where_name E q) cands)"
  from assms obtain shown where
    p: "paginate q ?rows = Inr shown" and v: "vs = map (view_of s) shown"
    by (auto simp: find_products_def ordered_def split: sum.splits)
  show ?thesis
  proof (cases ?dir)
    case ASC
    with order_by_sorted [where dir = ?dir and key = "max_price s" and ps = "filter (where_name E q) cands"]
    have "sorted_wrt (\<lambda>a b. max_price s a \<le> max_price s b) ?rows" by simp
    from paginate_sorted [OF p this] v ASC show ?thesis by (simp add: sorted_wrt_map)
  next
    case DESC
    with order_by_sorted [where dir = ?dir and key = "max_price s" and ps = "filter (where_name E q) cands"]
    have "sorted_wrt (\<lambda>a b. max_price s b \<le> max_price s a) ?rows" by simp
    from paginate_sorted [OF p this] v DESC show ?thesis by (simp add: sorted_wrt_map)
  qed
qed

subsection \<open>The claim on the order by price\<close>

text \<open>
  C8. A listing sorted by "price" is ordered by \<open>max_price\<close>, the greatest price among the
  variants of a product as the store holds them at the query, which is NULL for a product
  without a priced variant. Ascending, the keys never decrease along the listing; descending,
  they never increase; the order on keys is the one where NULL is below every number. So a
  product without variants is never placed above a priced one, in either direction.
\<close>

theorem price_sort_key:
  assumes "q_sortBy q = Some ''price''" and "getProducts E q s = Inr r"
  shows "(case or_else (q_orderBy q) DESC of
            ASC \<Rightarrow> sorted_wrt (\<lambda>a b. max_price s (pv_product a) \<le> max_price s (pv_product b)) (l_data r)
          | DESC \<Rightarrow> sorted_wrt (\<lambda>a b. max_price s (pv_product b) \<le> max_price s (pv_product a)) (l_data r))
       \<and> (\<forall>p. max_price s p =
            (if {x. \<exists>v\<in>set (variants s). v_productId v = Some (p_id p) \<and> v_price v = Some x} = {}
             then None
             else Some (Max {x. \<exists>v\<in>set (variants s). v_productId v = Some (p_id p) \<and> v_price v = Some x})))
       \<and> (\<forall>p x. max_price s p = None \<longrightarrow> max_price s p < Some x)"
proof -
  from assms(2) obtain cands where "find_products E q s cands = Inr (l_data r)"
    by (auto simp: getProducts_def respond_def split: option.splits sum.splits)
  from find_products_price_sorted [OF assms(1) this] max_price_eq show ?thesis by simp
qed


text \<open>
  The sample: product 1 has prices 10 and 30, product 2 has price 20, product 3 has no
  variant. Ascending the listing is 3, 2, 1; descending it is 1, 2, 3.
\<close>

theorem price_sort_key_witness:
  "q_sortBy (q_price ASC) = Some ''price''
   \<and> \<not> isl (getProducts demo_env (q_price ASC) demo_store)
   \<and> map (\<lambda>a. (p_id (pv_product a), max_price demo_store (pv_product a)))
        (l_data (projr (getProducts demo_env (q_price ASC) demo_store))) =
       [(3, None), (2, Some 20), (1, Some 30)]
   \<and> sorted_wrt (\<lambda>a b. max_price demo_store (pv_product a) \<le> max_price demo_store (pv_product b))
        (l_data (projr (getProducts demo_env (q_price ASC) demo_store)))
   \<and> map (\<lambda>a. (p_id (pv_product a), max_price demo_store (pv_product a)))
        (l_data (projr (getProducts demo_env (q_price DESC) demo_store))) =
       [(1, Some 30), (2, Some 20), (3, None)]
   \<and> sorted_wrt (\<lambda>a b. max_price demo_store (pv_product b) \<le> max_price demo_store (pv_product a))
        (l_data (projr (getProducts demo_env (q_price DESC) demo_store)))"
proof -
  have a: "q_sortBy (q_price dir) = Some ''price''" for dir by (simp add: q_price_def)
  have o: "or_else (q_orderBy (q_price dir)) DESC = dir" for dir by (simp add: q_price_def or_else_def)
  have b: "\<not> isl (getProducts demo_env (q_price ASC) demo_store)" by code_simp
  have b': "\<not> isl (getProducts demo_env (q_price DESC) demo_store)" by code_simp
  have c: "map (\<lambda>a. (p_id (pv_product a), max_price demo_store (pv_product a)))
        (l_data (projr (getProducts demo_env (q_price ASC) demo_store))) =
       [(3, None), (2, Some 20), (1, Some 30)]"
    by code_simp
  have c': "map (\<lambda>a. (p_id (pv_product a), max_price demo_store (pv_product a)))
        (l_data (projr (getProducts demo_env (q_price DESC) demo_store))) =
       [(1, Some 30), (2, Some 20), (3, None)]"
    by code_simp
  from b have r: "getProducts demo_env (q_price ASC) demo_store =
      Inr (projr (getProducts demo_env (q_price ASC) demo_store))" by simp
  from b' have r': "getProducts demo_env (q_price DESC) demo_store =
      Inr (projr (getProducts demo_env (q_price DESC) demo_store))" by simp
  note t = price_sort_key [OF a r, unfolded o, THEN conjunct1, simplified]
  note t' = price_sort_key [OF a r', unfolded o, THEN conjunct1, simplified]
  show ?thesis by (intro conjI a b c c' t t')
qed

end
